theory Spec2Isabelle
  imports Complex_Main "HOL-Library.Word" "HOL-Library.Signed_Division"
begin

unbundle bit_operations_syntax

section \<open>The frame view of the Qt front end (src/platform/qt/FrameView.cpp)\<close>

text \<open>
  The frame view decomposes one rendered frame into its layers (sprites, background
  planes, the backdrop), lets the operator select or suppress a layer, and replays the
  captured frame on a second core with the suppressions injected.  This theory embeds
  the member functions of \<^verbatim>\<open>FrameView\<close> as functions on a record of the object's members.
  Qt's widgets, the live core and the replay core are collaborators outside the file;
  what the functions read from them is an argument, what they do to them is a field of
  the state.  The mutex and the interrupter of the live core order the accesses of the
  two threads; here a call of a member function is one step, and the rotation of the
  captured log (\<^verbatim>\<open>refreshVl\<close>, \<^verbatim>\<open>newVl\<close>, \<^verbatim>\<open>frameCallback\<close>) is not
  embedded.
\<close>

subsection \<open>Layer identities\<close>

datatype LayerType = NONE | BACKGROUND | WINDOW | SPRITE | BACKDROP

record LayerId =
  type :: LayerType
  index :: int

text \<open>
  Modelled from the spec: FrameView.h, which declares \<^verbatim>\<open>LayerId\<close>, is not among the
  sources.  The spec has the index "absent" for the kinds that carry none, and
  \<^verbatim>\<open>readable()\<close> (line 428) treats a negative index as absent; the value of a LayerId
  that is initialised without an index (\<^verbatim>\<open>{}\<close>, \<^verbatim>\<open>{ LayerId::BACKDROP }\<close>) is
  that of the type given, or NONE, with the index \<open>-1\<close>.
\<close>

definition LayerId_of :: "LayerType \<Rightarrow> LayerId" where
  "LayerId_of t = \<lparr>type = t, index = - 1\<rparr>"

definition LayerId_default :: LayerId where
  "LayerId_default = LayerId_of NONE"

fun decimal :: "nat \<Rightarrow> string" where
  "decimal n = (if n < 10 then [char_of (48 + n)]
                else decimal (n div 10) @ [char_of (48 + n mod 10)])"

definition readable :: "LayerId \<Rightarrow> string" where
  "readable lid =
     (let typeStr = (case type lid of
                       NONE \<Rightarrow> ''None''
                     | BACKGROUND \<Rightarrow> ''Background''
                     | WINDOW \<Rightarrow> ''Window''
                     | SPRITE \<Rightarrow> ''Sprite''
                     | BACKDROP \<Rightarrow> ''Backdrop'')
      in if type lid = NONE then typeStr
         else if index lid < 0 then typeStr
         else typeStr @ '' '' @ decimal (nat (index lid)))"

subsection \<open>Geometry: points, regions, pixmaps\<close>

text \<open>
  A \<^verbatim>\<open>QPointF\<close> is a pair of doubles, modelled by the reals they denote: on finite
  doubles the comparison of a sum with zero and \<^verbatim>\<open>std::fmod\<close> are exact.  The one
  value without a real is the NaN that \<^verbatim>\<open>fmod\<close> returns for a zero divisor; it is
  \<open>None\<close>, and converting it to \<^verbatim>\<open>int\<close> is undefined in C++.  The conversion of a
  double to \<^verbatim>\<open>int\<close> truncates towards zero; screen positions and layer offsets are
  far inside the range of \<^verbatim>\<open>int\<close>, and the model has no range check there.
  A \<^verbatim>\<open>QRegion\<close> is the set of its integer points.
\<close>

type_synonym QPointF = "real \<times> real"
type_synonym QPoint = "int \<times> int"
type_synonym QSize = "int \<times> int"
type_synonym QRegion = "(int \<times> int) set"

definition toInt :: "real \<Rightarrow> int" where
  "toInt r = (if 0 \<le> r then \<lfloor>r\<rfloor> else \<lceil>r\<rceil>)"

definition fmod :: "real \<Rightarrow> real \<Rightarrow> real option" where
  "fmod x y = (if y = 0 then None else Some (x - y * of_int (toInt (x / y))))"

definition QRegion_rect :: "int \<Rightarrow> int \<Rightarrow> int \<Rightarrow> int \<Rightarrow> QRegion" where
  "QRegion_rect x y w h = {x ..< x + w} \<times> {y ..< y + h}"

definition translated :: "QRegion \<Rightarrow> int \<Rightarrow> int \<Rightarrow> QRegion" where
  "translated r dx dy = (\<lambda>(x, y). (x + dx, y + dy)) ` r"

definition QSize_isValid :: "QSize \<Rightarrow> bool" where
  "QSize_isValid d = (0 \<le> fst d \<and> 0 \<le> snd d)"

definition QSize_default :: QSize where
  "QSize_default = (- 1, - 1)"

definition QSize_times :: "QSize \<Rightarrow> int \<Rightarrow> QSize" where
  "QSize_times d c = (fst d * c, snd d * c)"

text \<open>
  Of a layer's pixmap the file reads the size, whether it has an alpha channel, and its
  mask; no function of the file reads a colour.  \<open>alphaMask\<close> is \<open>None\<close> for a
  pixmap without alpha, and otherwise the region of the bitmap that \<^verbatim>\<open>mask()\<close>
  returns.
\<close>

record QPixmap =
  width :: int
  height :: int
  alphaMask :: "QRegion option"

definition hasAlpha :: "QPixmap \<Rightarrow> bool" where
  "hasAlpha p = (alphaMask p \<noteq> None)"

definition mirrored :: "QPixmap \<Rightarrow> bool \<Rightarrow> bool \<Rightarrow> QPixmap" where
  "mirrored p horizontal vertical =
     p\<lparr>alphaMask := map_option
          (\<lambda>r. (\<lambda>(x, y). (if horizontal then width p - 1 - x else x,
                           if vertical then height p - 1 - y else y)) ` r)
          (alphaMask p)\<rparr>"

text \<open>Lines 177 to 181 and 203 to 207: the mask that a new sprite or background gets,
  the region of \<^verbatim>\<open>mask()\<close> when the pixmap has alpha and its rectangle otherwise.\<close>

definition maskOf :: "QPixmap \<Rightarrow> QRegion" where
  "maskOf p = (case alphaMask p of
                 Some r \<Rightarrow> r
               | None \<Rightarrow> QRegion_rect 0 0 (width p) (height p))"

subsection \<open>Layers and the hit test\<close>

record Layer =
  layer_id :: LayerId
  enabled :: bool
  layer_image :: QPixmap
  layer_mask :: QRegion
  location :: QPointF
  repeats :: bool

datatype error = UndefinedConversion | OutOfBounds | NullVideoBuffer

text \<open>Lines 90 to 95: a coordinate of the placement, renormalised when the layer ends
  left of (above) the origin.\<close>

definition renormalize :: "real \<Rightarrow> real \<Rightarrow> real option" where
  "renormalize x d = (if x + d < 0 then fmod x d else Some x)"

text \<open>Lines 86 to 103: the region a layer is hit in; \<open>None\<close> when a NaN would be
  converted to \<^verbatim>\<open>int\<close>.\<close>

definition hitRegion :: "Layer \<Rightarrow> QRegion option" where
  "hitRegion layer =
     (let w = real_of_int (width (layer_image layer));
          h = real_of_int (height (layer_image layer));
          m = layer_mask layer
      in if repeats layer then
           (case renormalize (fst (location layer)) w of
              None \<Rightarrow> None
            | Some x \<Rightarrow>
               (case renormalize (snd (location layer)) h of
                  None \<Rightarrow> None
                | Some y \<Rightarrow>
                    Some (translated m (toInt x) (toInt y)
                        \<union> translated m (toInt (x + w)) (toInt y)
                        \<union> translated m (toInt x) (toInt (y + h))
                        \<union> translated m (toInt (x + w)) (toInt (y + h)))))
         else Some (translated m (toInt (fst (location layer))) (toInt (snd (location layer)))))"

text \<open>Line 105: \<^verbatim>\<open>region.contains(QPoint(coord.x(), coord.y()))\<close>.\<close>

definition hitTest :: "Layer \<Rightarrow> QPointF \<Rightarrow> bool option" where
  "hitTest layer coord =
     map_option (\<lambda>region. (toInt (fst coord), toInt (snd coord)) \<in> region) (hitRegion layer)"

text \<open>A position found in the rest of the queue, counted from the head of the queue.\<close>

definition later :: "error + nat option \<Rightarrow> error + nat option" where
  "later r = map_sum (\<lambda>e. e) (map_option Suc) r"

text \<open>Lines 81 to 111.  The result is the position in the queue of the layer that
  \<^verbatim>\<open>out\<close> points to, or \<open>None\<close> when the function returns false.\<close>

fun lookupLayer :: "Layer list \<Rightarrow> LayerId set \<Rightarrow> QPointF \<Rightarrow> error + nat option" where
  "lookupLayer [] disabled coord = Inr None"
| "lookupLayer (layer # rest) disabled coord =
     (if \<not> enabled layer \<or> layer_id layer \<in> disabled
      then later (lookupLayer rest disabled coord)
      else (case hitTest layer coord of
              None \<Rightarrow> Inl UndefinedConversion
            | Some True \<Rightarrow> Inr (Some 0)
            | Some False \<Rightarrow> later (lookupLayer rest disabled coord)))"

subsection \<open>The replay core\<close>

datatype mVideoLoggerInjectionPoint = LOGGER_INJECTION_FIRST_SCANLINE

datatype mVideoLoggerDirtyType = DIRTY_PALETTE | DIRTY_OAM | DIRTY_REGISTER

text \<open>
  The calls that the file makes on the replay core and on its video logger, with the
  arguments as the call site computes them.  The mask of
  \<^verbatim>\<open>mVideoLoggerIgnoreAfterInjection\<close> is the set of the dirty types whose bits it
  has.
\<close>

datatype call =
    InjectionPoint mVideoLoggerInjectionPoint
  | InjectOAM int int
  | IgnoreAfterInjection "mVideoLoggerDirtyType set"
  | enableVideoLayer int bool

text \<open>The fields of \<^verbatim>\<open>gba->video.renderer\<close> that the file writes.  The amount is
  the double that line 237 computes.\<close>

record GBAVideoRenderer =
  highlightBG :: "bool list"
  highlightOBJ :: "bool list"
  highlightColor :: "32 word"
  highlightAmount :: real

text \<open>
  Modelled from the spec: the replay core (\<^verbatim>\<open>mCore\<close>, its video logger and its
  renderer) is not among the sources.  Section 4.4 of the spec has the replay
  "always deterministic single-frame-from-scratch, never incremental": \<^verbatim>\<open>reset\<close>
  forgets what was injected, and the frame that \<^verbatim>\<open>runFrame\<close> writes is a function
  (\<open>replay\<close>, fixed by the captured log that the core has loaded) of the calls injected
  since the reset and of the renderer's highlight fields.
\<close>

record 'px mCore =
  replay :: "call list \<Rightarrow> GBAVideoRenderer \<Rightarrow> 'px"
  injected :: "call list"
  renderer :: GBAVideoRenderer

definition reset :: "'px mCore \<Rightarrow> 'px mCore" where
  "reset core = core\<lparr>injected := []\<rparr>"

definition runFrame :: "'px mCore \<Rightarrow> 'px" where
  "runFrame core = replay core (injected core) (renderer core)"

subsection \<open>The members of the view\<close>

datatype CheckState = Unchecked | PartiallyChecked | Checked

datatype ItemFlag = ItemIsSelectable | ItemIsUserCheckable | ItemIsEnabled

record QListWidgetItem =
  itemText :: string
  flags :: "ItemFlag set"
  checkState :: CheckState
  itemData :: int
  selected :: bool

datatype mPlatform = PLATFORM_GBA | PLATFORM_GB | PLATFORM_NONE

text \<open>
  A frame image (the live core's pixels, the replay framebuffer) is a value of the
  type \<open>'px\<close>; \<open>None\<close> is the null image.  A pixmap shown scaled is the pair of the
  image and the factor or size it is scaled to.
\<close>

record 'px FrameView =
  m_queue :: "Layer list"
  m_disabled :: "LayerId set"
  m_active :: LayerId
  m_glowFrame :: int
  m_vl :: "'px mCore option"
  m_framebuffer :: "'px option"
  m_rendered :: "'px option"
  m_composited :: "'px option \<times> QSize"
  m_dims :: QSize
  m_gbaDispcnt :: "16 word"
  ui_queue :: "QListWidgetItem list"
  ui_freeze :: CheckState
  ui_disableScanline :: CheckState
  ui_magnification :: int
  ui_renderedView :: "'px option \<times> int"
  ui_compositedView :: "'px option \<times> QSize"
  ui_highlightedText :: "32 word"

text \<open>
  What the functions read from the live side (\<^verbatim>\<open>m_controller\<close> and, through the
  inherited \<^verbatim>\<open>AssetView\<close>, its caches) at the time of a call.  \<open>io\<close> is the
  register file \<^verbatim>\<open>memory.io\<close> of the GBA board.
\<close>

record ObjInfo =
  obj_enabled :: bool
  obj_priority :: int
  obj_x :: int
  obj_y :: int
  hflip :: bool
  vflip :: bool

record 'px CoreController =
  getPixels :: 'px
  platform :: mPlatform
  screenDimensions :: QSize
  io :: "nat \<Rightarrow> 16 word"
  lookupObj :: "int \<Rightarrow> ObjInfo"
  compositeObj :: "ObjInfo \<Rightarrow> QPixmap"
  compositeMap :: "int \<Rightarrow> QPixmap"

text \<open>
  The register addresses, the bit-field accessors and the screen size come from headers
  of the emulator core that are not among the sources; they are parameters.
\<close>

record GBAHeaders =
  REG_DISPCNT :: nat
  REG_BG0CNT :: nat
  REG_BG0HOFS :: nat
  REG_BG0VOFS :: nat
  GBARegisterDISPCNTGetMode :: "16 word \<Rightarrow> int"
  GBARegisterDISPCNTIsBgEnable :: "int \<Rightarrow> 16 word \<Rightarrow> bool"
  GBARegisterBGCNTGetPriority :: "16 word \<Rightarrow> int"
  GBA_VIDEO_HORIZONTAL_PIXELS :: int
  GBA_VIDEO_VERTICAL_PIXELS :: int

subsection \<open>Selecting and disabling at a point\<close>

text \<open>Lines 113 to 124.\<close>

definition selectLayer :: "QPointF \<Rightarrow> 'px FrameView \<Rightarrow> error + 'px FrameView" where
  "selectLayer coord s =
     (case lookupLayer (m_queue s) (m_disabled s) coord of
        Inl e \<Rightarrow> Inl e
      | Inr None \<Rightarrow> Inr s
      | Inr (Some i) \<Rightarrow>
          Inr (s\<lparr>m_active := (if layer_id (m_queue s ! i) = m_active s then LayerId_default
                               else layer_id (m_queue s ! i)),
                 m_glowFrame := 0\<rparr>))"

text \<open>Lines 126 to 133.\<close>

definition disableLayer :: "QPointF \<Rightarrow> 'px FrameView \<Rightarrow> error + 'px FrameView" where
  "disableLayer coord s =
     (case lookupLayer (m_queue s) (m_disabled s) coord of
        Inl e \<Rightarrow> Inl e
      | Inr None \<Rightarrow> Inr s
      | Inr (Some i) \<Rightarrow>
          Inr (s\<lparr>m_queue := (m_queue s)[i := (m_queue s ! i)\<lparr>enabled := False\<rparr>],
                 m_disabled := insert (layer_id (m_queue s ! i)) (m_disabled s)\<rparr>))"

subsection \<open>Injection into the replay\<close>

text \<open>Lines 240 to 255, the body of the loop over the queue.  The arrays
  \<^verbatim>\<open>highlightBG\<close> and \<^verbatim>\<open>highlightOBJ\<close> have 4 and 128 entries (lines 228 to 234); a
  write outside them is an error of the model.\<close>

definition injectLayer :: "LayerId \<Rightarrow> 'px mCore \<Rightarrow> Layer \<Rightarrow> error + 'px mCore" where
  "injectLayer active core layer =
     (case type (layer_id layer) of
        SPRITE \<Rightarrow>
          (let core1 = (if \<not> enabled layer
                        then core\<lparr>injected := injected core
                               @ [InjectOAM (push_bit 2 (index (layer_id layer))) 0x200]\<rparr>
                        else core)
           in if layer_id layer = active then
                (if 0 \<le> index (layer_id layer) \<and> index (layer_id layer) < 128
                 then Inr (core1\<lparr>renderer := (renderer core1)\<lparr>highlightOBJ :=
                        (highlightOBJ (renderer core1))[nat (index (layer_id layer)) := True]\<rparr>\<rparr>)
                 else Inl OutOfBounds)
              else Inr core1)
      | BACKGROUND \<Rightarrow>
          (let core1 = core\<lparr>injected := injected core
                         @ [enableVideoLayer (index (layer_id layer)) (enabled layer)]\<rparr>
           in if layer_id layer = active then
                (if 0 \<le> index (layer_id layer) \<and> index (layer_id layer) < 4
                 then Inr (core1\<lparr>renderer := (renderer core1)\<lparr>highlightBG :=
                        (highlightBG (renderer core1))[nat (index (layer_id layer)) := True]\<rparr>\<rparr>)
                 else Inl OutOfBounds)
              else Inr core1)
      | _ \<Rightarrow> Inr core)"

fun injectLayers :: "LayerId \<Rightarrow> Layer list \<Rightarrow> 'px mCore \<Rightarrow> error + 'px mCore" where
  "injectLayers active [] core = Inr core"
| "injectLayers active (layer # rest) core =
     (case injectLayer active core layer of
        Inl e \<Rightarrow> Inl e
      | Inr core' \<Rightarrow> injectLayers active rest core')"

text \<open>Lines 224 to 262; \<open>core\<close> is the replay core that \<^verbatim>\<open>m_vl\<close> points to.\<close>

definition injectGBA :: "'px FrameView \<Rightarrow> 'px mCore \<Rightarrow> error + 'px mCore" where
  "injectGBA s core =
     (let core0 = core\<lparr>injected := injected core @ [InjectionPoint LOGGER_INJECTION_FIRST_SCANLINE],
                       renderer := \<lparr>highlightBG = replicate 4 False,
                                    highlightOBJ = replicate 128 False,
                                    highlightColor = ui_highlightedText s,
                                    highlightAmount =
                                      sin (real_of_int (m_glowFrame s) * pi / 30) * 64 + 64\<rparr>\<rparr>
      in case injectLayers (m_active s) (m_queue s) core0 of
           Inl e \<Rightarrow> Inl e
         | Inr core1 \<Rightarrow>
             Inr (core1\<lparr>injected := injected core1 @
                    [IgnoreAfterInjection
                       (if ui_disableScanline s = Checked
                        then {DIRTY_PALETTE, DIRTY_OAM, DIRTY_REGISTER} else {})]\<rparr>))"

text \<open>Lines 278 to 282: the loop has an empty body.\<close>

definition injectGB :: "'px FrameView \<Rightarrow> 'px mCore \<Rightarrow> 'px mCore" where
  "injectGB s core = core"

subsection \<open>Re-rendering\<close>

text \<open>Lines 337 to 344.\<close>

definition updateRendered :: "'px CoreController \<Rightarrow> 'px FrameView \<Rightarrow> 'px FrameView" where
  "updateRendered ctl s =
     (if ui_freeze s = Checked then s
      else s\<lparr>m_rendered := Some (getPixels ctl),
             ui_renderedView := (Some (getPixels ctl), ui_magnification s)\<rparr>)"

text \<open>Lines 290 to 303.  The switch has no \<^verbatim>\<open>break\<close>: on the GBA both injections
  run.  \<^verbatim>\<open>runFrame\<close> writes into the buffer of \<^verbatim>\<open>m_framebuffer\<close>, which
  \<^verbatim>\<open>newVl\<close> creates together with the core; a core without that buffer is an error
  of the model.\<close>

definition replayFrame :: "'px CoreController \<Rightarrow> 'px FrameView \<Rightarrow> error + 'px FrameView" where
  "replayFrame ctl s =
     (case m_vl s of
        None \<Rightarrow> Inr s
      | Some core \<Rightarrow>
          (case (case platform ctl of
                   PLATFORM_GBA \<Rightarrow> map_sum (\<lambda>e. e) (injectGB s) (injectGBA s (reset core))
                 | PLATFORM_GB \<Rightarrow> Inr (injectGB s (reset core))
                 | PLATFORM_NONE \<Rightarrow> Inr (reset core)) of
             Inl e \<Rightarrow> Inl e
           | Inr core' \<Rightarrow>
               (case m_framebuffer s of
                  None \<Rightarrow> Inl NullVideoBuffer
                | Some old \<Rightarrow> Inr (s\<lparr>m_vl := Some core', m_framebuffer := Some (runFrame core')\<rparr>))))"

text \<open>Lines 305 to 323: after the loops the list widget has one item per layer, in
  queue order, with every property that the file sets.  The signals of the list are
  blocked meanwhile (lines 288 and 324), so no handler runs.\<close>

definition queueItem :: "LayerId \<Rightarrow> nat \<Rightarrow> Layer \<Rightarrow> QListWidgetItem" where
  "queueItem active i layer =
     \<lparr>itemText = readable (layer_id layer),
      flags = {ItemIsSelectable, ItemIsUserCheckable, ItemIsEnabled},
      checkState = (if enabled layer then Checked else Unchecked),
      itemData = int i,
      selected = (layer_id layer = active)\<rparr>"

definition syncList :: "'px FrameView \<Rightarrow> 'px FrameView" where
  "syncList s =
     s\<lparr>ui_queue := map (\<lambda>i. queueItem (m_active s) i (m_queue s ! i)) [0 ..< length (m_queue s)]\<rparr>"

text \<open>Lines 326 to 334.\<close>

definition composite :: "'px CoreController \<Rightarrow> 'px FrameView \<Rightarrow> 'px FrameView" where
  "composite ctl s =
     (case m_framebuffer s of
        None \<Rightarrow>
          (let s1 = updateRendered ctl s;
               c = (m_rendered s1, QSize_times (m_dims s1) (ui_magnification s1))
           in s1\<lparr>m_composited := c, ui_compositedView := c\<rparr>)
      | Some fb \<Rightarrow>
          (let c = (Some fb, QSize_times (m_dims s) (ui_magnification s))
           in s\<lparr>m_composited := c, ui_compositedView := c\<rparr>))"

text \<open>Lines 284 to 335.\<close>

definition invalidateQueue ::
  "'px CoreController \<Rightarrow> QSize \<Rightarrow> 'px FrameView \<Rightarrow> error + 'px FrameView" where
  "invalidateQueue ctl dims s =
     (case replayFrame ctl (if QSize_isValid dims then s\<lparr>m_dims := dims\<rparr> else s) of
        Inl e \<Rightarrow> Inl e
      | Inr s1 \<Rightarrow> Inr (composite ctl (syncList s1)))"

subsection \<open>The handlers of the list widget and of the glow timer\<close>

text \<open>Lines 46 to 55: \<^verbatim>\<open>itemChanged\<close> of the queue list.  The item's data is the
  position of its layer in the queue; a position outside the queue is an error of the
  model.\<close>

definition queue_itemChanged ::
  "'px CoreController \<Rightarrow> QListWidgetItem \<Rightarrow> 'px FrameView \<Rightarrow> error + 'px FrameView" where
  "queue_itemChanged ctl item s =
     (if 0 \<le> itemData item \<and> nat (itemData item) < length (m_queue s) then
        (let i = nat (itemData item);
             layer = (m_queue s ! i)\<lparr>enabled := (checkState item = Checked)\<rparr>
         in invalidateQueue ctl QSize_default
              (s\<lparr>m_queue := (m_queue s)[i := layer],
                 m_disabled := (if enabled layer then m_disabled s - {layer_id layer}
                                else insert (layer_id layer) (m_disabled s))\<rparr>))
      else Inl OutOfBounds)"

text \<open>Lines 38 to 41: the timeout of the glow timer.\<close>

definition glowTimer_timeout ::
  "'px CoreController \<Rightarrow> 'px FrameView \<Rightarrow> error + 'px FrameView" where
  "glowTimer_timeout ctl s = invalidateQueue ctl QSize_default (s\<lparr>m_glowFrame := m_glowFrame s + 1\<rparr>)"

subsection \<open>Decomposition\<close>

text \<open>Lines 159 to 181, the body of the loop over the sprites.\<close>

definition spriteStep ::
  "'px CoreController \<Rightarrow> LayerId set \<Rightarrow> int \<Rightarrow> Layer list \<Rightarrow> int \<Rightarrow> Layer list" where
  "spriteStep ctl disabled priority queue sprite =
     (let info = lookupObj ctl sprite
      in if \<not> obj_enabled info \<or> obj_priority info \<noteq> priority then queue
         else
           (let obj0 = compositeObj ctl info;
                obj = (if hflip info \<or> vflip info then mirrored obj0 (hflip info) (vflip info)
                       else obj0)
            in queue @ [\<lparr>layer_id = \<lparr>type = SPRITE, index = sprite\<rparr>,
                          enabled = (\<lparr>type = SPRITE, index = sprite\<rparr> \<notin> disabled),
                          layer_image = obj,
                          layer_mask = maskOf obj,
                          location = (real_of_int (obj_x info), real_of_int (obj_y info)),
                          repeats = False\<rparr>]))"

text \<open>Lines 185 to 207, the body of the loop over the backgrounds.  A default
  \<^verbatim>\<open>QPointF\<close> is the origin.\<close>

definition bgStep ::
  "GBAHeaders \<Rightarrow> 'px CoreController \<Rightarrow> LayerId set \<Rightarrow> 16 word \<Rightarrow> int \<Rightarrow> Layer list \<Rightarrow> int
     \<Rightarrow> Layer list" where
  "bgStep hdr ctl disabled dispcnt priority queue bg =
     (if \<not> GBARegisterDISPCNTIsBgEnable hdr bg dispcnt then queue
      else if GBARegisterBGCNTGetPriority hdr (io ctl (drop_bit 1 (REG_BG0CNT hdr) + nat bg))
              \<noteq> priority then queue
      else
        (let offset =
               (if GBARegisterDISPCNTGetMode hdr dispcnt = 0
                then (real_of_int (- uint (io ctl (drop_bit 1 (REG_BG0HOFS hdr) + nat (push_bit 1 bg))
                                            AND 0x1FF)),
                      real_of_int (- uint (io ctl (drop_bit 1 (REG_BG0VOFS hdr) + nat (push_bit 1 bg))
                                            AND 0x1FF)))
                else (0, 0));
             img = compositeMap ctl bg
         in queue @ [\<lparr>layer_id = \<lparr>type = BACKGROUND, index = bg\<rparr>,
                       enabled = (\<lparr>type = BACKGROUND, index = bg\<rparr> \<notin> disabled),
                       layer_image = img,
                       layer_mask = maskOf img,
                       location = offset,
                       repeats = True\<rparr>]))"

text \<open>Lines 157 to 209: the loop over the priorities, the sprites of a priority before
  its backgrounds.\<close>

definition priorityStep ::
  "GBAHeaders \<Rightarrow> 'px CoreController \<Rightarrow> LayerId set \<Rightarrow> 16 word \<Rightarrow> Layer list \<Rightarrow> int \<Rightarrow> Layer list" where
  "priorityStep hdr ctl disabled dispcnt queue priority =
     foldl (bgStep hdr ctl disabled dispcnt priority)
       (foldl (spriteStep ctl disabled priority) queue (map int [0 ..< 128]))
       (map int [0 ..< 4])"

text \<open>Lines 210 to 218.  The backdrop is appended with an empty mask.\<close>

definition backdropLayer :: "GBAHeaders \<Rightarrow> LayerId set \<Rightarrow> Layer" where
  "backdropLayer hdr disabled =
     \<lparr>layer_id = LayerId_of BACKDROP,
      enabled = (LayerId_of BACKDROP \<notin> disabled),
      layer_image = \<lparr>width = GBA_VIDEO_HORIZONTAL_PIXELS hdr,
                     height = GBA_VIDEO_VERTICAL_PIXELS hdr,
                     alphaMask = None\<rparr>,
      layer_mask = {},
      location = (0, 0),
      repeats = False\<rparr>"

text \<open>Lines 136 to 222.\<close>

definition updateTilesGBA ::
  "GBAHeaders \<Rightarrow> 'px CoreController \<Rightarrow> 'px FrameView \<Rightarrow> error + 'px FrameView" where
  "updateTilesGBA hdr ctl s =
     (if ui_freeze s = Checked then Inr s
      else
        (let dispcnt = io ctl (drop_bit 1 (REG_DISPCNT hdr));
             queue = foldl (priorityStep hdr ctl (m_disabled s) dispcnt) [] (map int [0 ..< 4])
                     @ [backdropLayer hdr (m_disabled s)]
         in invalidateQueue ctl (GBA_VIDEO_HORIZONTAL_PIXELS hdr, GBA_VIDEO_VERTICAL_PIXELS hdr)
              (updateRendered ctl (s\<lparr>m_queue := queue, m_gbaDispcnt := dispcnt\<rparr>))))"

text \<open>Lines 266 to 276.\<close>

definition updateTilesGB :: "'px CoreController \<Rightarrow> 'px FrameView \<Rightarrow> error + 'px FrameView" where
  "updateTilesGB ctl s =
     (if ui_freeze s = Checked then Inr s
      else invalidateQueue ctl (screenDimensions ctl) (updateRendered ctl (s\<lparr>m_queue := []\<rparr>)))"

section \<open>Notions used in the statements and proofs\<close>

text \<open>The calls that one pass of the loop of \<^verbatim>\<open>injectGBA\<close> (lines 240 to 255) makes
  for a layer.\<close>

definition layerCalls :: "Layer \<Rightarrow> call list" where
  "layerCalls layer =
     (case type (layer_id layer) of
        SPRITE \<Rightarrow> (if \<not> enabled layer
                    then [InjectOAM (push_bit 2 (index (layer_id layer))) 0x200] else [])
      | BACKGROUND \<Rightarrow> [enableVideoLayer (index (layer_id layer)) (enabled layer)]
      | _ \<Rightarrow> [])"

text \<open>A highlight array after the loop: the entry of the active layer is set when the
  active layer has the array's type and is in the queue.\<close>

definition highlightIn :: "LayerId \<Rightarrow> Layer list \<Rightarrow> LayerType \<Rightarrow> bool list \<Rightarrow> bool list" where
  "highlightIn active queue t hl =
     (if type active = t \<and> active \<in> layer_id ` set queue then hl[nat (index active) := True]
      else hl)"

text \<open>The loop writes outside a highlight array: the active layer is in the queue, and
  its index is not one of the array.\<close>

definition outOfBounds :: "LayerId \<Rightarrow> Layer list \<Rightarrow> bool" where
  "outOfBounds active queue =
     (active \<in> layer_id ` set queue \<and>
      (type active = SPRITE \<and> \<not> (0 \<le> index active \<and> index active < 128)
       \<or> type active = BACKGROUND \<and> \<not> (0 \<le> index active \<and> index active < 4)))"

text \<open>The replay core after lines 291 to 301, when no write is out of bounds.\<close>

definition replayed :: "mPlatform \<Rightarrow> 'px FrameView \<Rightarrow> 'px mCore \<Rightarrow> 'px mCore" where
  "replayed p s core =
     (if p = PLATFORM_GBA then
        core\<lparr>injected := InjectionPoint LOGGER_INJECTION_FIRST_SCANLINE
                # concat (map layerCalls (m_queue s))
                @ [IgnoreAfterInjection
                     (if ui_disableScanline s = Checked
                      then {DIRTY_PALETTE, DIRTY_OAM, DIRTY_REGISTER} else {})],
             renderer :=
               \<lparr>highlightBG = highlightIn (m_active s) (m_queue s) BACKGROUND (replicate 4 False),
                highlightOBJ = highlightIn (m_active s) (m_queue s) SPRITE (replicate 128 False),
                highlightColor = ui_highlightedText s,
                highlightAmount = sin (real_of_int (m_glowFrame s) * pi / 30) * 64 + 64\<rparr>\<rparr>
      else core\<lparr>injected := []\<rparr>)"

text \<open>The layers that the loops of \<^verbatim>\<open>updateTilesGBA\<close> append: sprites 0 to 127, not
  repeating, and backgrounds 0 to 3, repeating.\<close>

definition planeLayer :: "Layer \<Rightarrow> bool" where
  "planeLayer l =
     (type (layer_id l) = SPRITE \<and> 0 \<le> index (layer_id l) \<and> index (layer_id l) < 128
        \<and> \<not> repeats l
      \<or> type (layer_id l) = BACKGROUND \<and> 0 \<le> index (layer_id l) \<and> index (layer_id l) < 4
        \<and> repeats l)"

subsection \<open>Sample values\<close>

definition sampleSprite :: Layer where
  "sampleSprite =
     \<lparr>layer_id = \<lparr>type = SPRITE, index = 3\<rparr>, enabled = False,
      layer_image = \<lparr>width = 8, height = 8, alphaMask = None\<rparr>,
      layer_mask = QRegion_rect 0 0 8 8, location = (0, 0), repeats = False\<rparr>"

definition sampleBg0 :: Layer where
  "sampleBg0 =
     \<lparr>layer_id = \<lparr>type = BACKGROUND, index = 0\<rparr>, enabled = True,
      layer_image = \<lparr>width = 16, height = 16, alphaMask = None\<rparr>,
      layer_mask = QRegion_rect 0 0 16 16, location = (- 5, 0), repeats = True\<rparr>"

definition sampleBg1 :: Layer where
  "sampleBg1 =
     \<lparr>layer_id = \<lparr>type = BACKGROUND, index = 1\<rparr>, enabled = True,
      layer_image = \<lparr>width = 16, height = 16, alphaMask = None\<rparr>,
      layer_mask = QRegion_rect 0 0 16 16, location = (0, 0), repeats = True\<rparr>"

definition sampleBackdrop :: Layer where
  "sampleBackdrop =
     \<lparr>layer_id = LayerId_of BACKDROP, enabled = True,
      layer_image = \<lparr>width = 240, height = 160, alphaMask = None\<rparr>,
      layer_mask = {}, location = (0, 0), repeats = False\<rparr>"

definition sampleQueue :: "Layer list" where
  "sampleQueue = [sampleSprite, sampleBg0, sampleBg1, sampleBackdrop]"

definition sampleCore :: "nat mCore" where
  "sampleCore =
     \<lparr>replay = (\<lambda>calls r. length calls + length (filter (\<lambda>b. b) (highlightBG r))),
      injected = [],
      renderer = \<lparr>highlightBG = replicate 4 False, highlightOBJ = replicate 128 False,
                  highlightColor = 0, highlightAmount = 0\<rparr>\<rparr>"

definition sampleView :: "nat FrameView" where
  "sampleView =
     \<lparr>m_queue = sampleQueue,
      m_disabled = {\<lparr>type = SPRITE, index = 3\<rparr>},
      m_active = \<lparr>type = BACKGROUND, index = 0\<rparr>,
      m_glowFrame = 0,
      m_vl = Some sampleCore,
      m_framebuffer = Some 0,
      m_rendered = None,
      m_composited = (None, (0, 0)),
      m_dims = (240, 160),
      m_gbaDispcnt = 0,
      ui_queue = [],
      ui_freeze = Unchecked,
      ui_disableScanline = Unchecked,
      ui_magnification = 2,
      ui_renderedView = (None, 2),
      ui_compositedView = (None, (0, 0)),
      ui_highlightedText = 0xFFFFFF\<rparr>"

definition sampleController :: "mPlatform \<Rightarrow> nat CoreController" where
  "sampleController p =
     \<lparr>getPixels = 7,
      platform = p,
      screenDimensions = (160, 144),
      io = (\<lambda>r. 0),
      lookupObj = (\<lambda>i. \<lparr>obj_enabled = (i = 3), obj_priority = 0, obj_x = 10, obj_y = 20,
                          hflip = False, vflip = False\<rparr>),
      compositeObj = (\<lambda>info. \<lparr>width = 8, height = 8, alphaMask = None\<rparr>),
      compositeMap = (\<lambda>bg. \<lparr>width = 256, height = 256, alphaMask = None\<rparr>)\<rparr>"

definition sampleHeaders :: GBAHeaders where
  "sampleHeaders =
     \<lparr>REG_DISPCNT = 0, REG_BG0CNT = 8, REG_BG0HOFS = 16, REG_BG0VOFS = 18,
      GBARegisterDISPCNTGetMode = (\<lambda>w. uint (w AND 7)),
      GBARegisterDISPCNTIsBgEnable = (\<lambda>bg w. bit w (8 + nat bg)),
      GBARegisterBGCNTGetPriority = (\<lambda>w. uint (w AND 3)),
      GBA_VIDEO_HORIZONTAL_PIXELS = 240,
      GBA_VIDEO_VERTICAL_PIXELS = 160\<rparr>"

definition sampleItem :: "CheckState \<Rightarrow> QListWidgetItem" where
  "sampleItem c = \<lparr>itemText = ''Background 0'',
                   flags = {ItemIsSelectable, ItemIsUserCheckable, ItemIsEnabled},
                   checkState = c, itemData = 1, selected = True\<rparr>"

text \<open>A background four pixels wide, and one whose mask has a point outside its
  image.\<close>

definition sampleNarrow :: Layer where
  "sampleNarrow =
     \<lparr>layer_id = \<lparr>type = BACKGROUND, index = 2\<rparr>, enabled = True,
      layer_image = \<lparr>width = 4, height = 16, alphaMask = None\<rparr>,
      layer_mask = QRegion_rect 0 0 4 16, location = (- 5, 0), repeats = True\<rparr>"

definition sampleStray :: Layer where
  "sampleStray = sampleBg0\<lparr>layer_mask := {(18, 7)}\<rparr>"

text \<open>A view re-rendered with background 0 active, then a click on that background
  (which deselects it, without a re-render), then its checkbox unchecked and checked
  again.\<close>

definition sampleView2 :: "nat FrameView" where
  "sampleView2 = sampleView\<lparr>m_disabled := {}, m_queue := [sampleBg0, sampleBackdrop]\<rparr>"

definition sampleRendered :: "nat FrameView" where
  "sampleRendered =
     projr (invalidateQueue (sampleController PLATFORM_GBA) QSize_default sampleView2)"

definition sampleDeselected :: "nat FrameView" where
  "sampleDeselected = projr (selectLayer (2, 3) sampleRendered)"

definition sampleOff :: "nat FrameView" where
  "sampleOff =
     projr (queue_itemChanged (sampleController PLATFORM_GBA)
              (sampleItem Unchecked\<lparr>itemData := 0\<rparr>) sampleDeselected)"

definition sampleOn :: "nat FrameView" where
  "sampleOn =
     projr (queue_itemChanged (sampleController PLATFORM_GBA)
              (sampleItem Checked\<lparr>itemData := 0\<rparr>) sampleOff)"

text \<open>Entry \<open>i\<close> of \<^verbatim>\<open>highlightBG\<close> of the replay core's renderer, when there is a
  core.\<close>

definition replayHighlightBG :: "'px FrameView \<Rightarrow> nat \<Rightarrow> bool option" where
  "replayHighlightBG s i =
     (case m_vl s of None \<Rightarrow> None | Some core \<Rightarrow> Some (highlightBG (renderer core) ! i))"

section \<open>The hit test\<close>

lemma later_eq_Some: "later r = Inr (Some i) \<longleftrightarrow> (\<exists>j. i = Suc j \<and> r = Inr (Some j))"
  by (cases r; cases i) (auto simp: later_def split: option.splits)

lemma later_eq_None: "later r = Inr None \<longleftrightarrow> r = Inr None"
  by (cases r) (auto simp: later_def)

lemma lookupLayer_Some:
  "lookupLayer q d c = Inr (Some i) \<longleftrightarrow>
     (i < length q \<and> enabled (q ! i) \<and> layer_id (q ! i) \<notin> d \<and> hitTest (q ! i) c = Some True \<and>
      (\<forall>j<i. enabled (q ! j) \<and> layer_id (q ! j) \<notin> d \<longrightarrow> hitTest (q ! j) c = Some False))"
proof (induction q arbitrary: i)
  case Nil
  show ?case by simp
next
  case (Cons l q)
  show ?case
  proof (cases i)
    case 0
    then show ?thesis
      by (auto simp: later_eq_Some split: option.splits bool.splits)
  next
    case (Suc k)
    then show ?thesis
      using Cons.IH [of k]
      by (auto simp: later_eq_Some less_Suc_eq_0_disj all_conj_distrib
               split: option.splits bool.splits)
  qed
qed

lemma lookupLayer_None:
  "lookupLayer q d c = Inr None \<longleftrightarrow>
     (\<forall>l\<in>set q. enabled l \<and> layer_id l \<notin> d \<longrightarrow> hitTest l c = Some False)"
  by (induction q) (auto simp: later_eq_None split: option.splits bool.splits)

lemma toInt_of_int [simp]: "toInt (of_int a) = a"
  by (simp add: toInt_def)

lemma toInt_numeral [simp]: "toInt (numeral n) = numeral n" "toInt (- numeral n) = - numeral n"
  "toInt 0 = 0" "toInt 1 = 1"
  by (simp_all add: toInt_def)

lemma in_translated: "(px, py) \<in> translated m dx dy \<longleftrightarrow> (px - dx, py - dy) \<in> m"
  by (force simp: translated_def)

lemma in_QRegion_rect:
  "(px, py) \<in> QRegion_rect x y w h \<longleftrightarrow> x \<le> px \<and> px < x + w \<and> y \<le> py \<and> py < y + h"
  by (auto simp: QRegion_rect_def)

lemma sample_hits:
  "hitTest sampleBg0 (2, 3) = Some True" "hitTest sampleBg1 (2, 3) = Some True"
  "hitTest sampleSprite (2, 3) = Some True"
  by (simp_all add: hitTest_def hitRegion_def renormalize_def sampleBg0_def sampleBg1_def
        sampleSprite_def in_translated in_QRegion_rect Let_def)

text \<open>The hit test of a layer, point by point: the point, converted to integers, less
  the converted placement lies in the mask; for a repeating layer, less one of the four
  placements.\<close>

lemma hitTest_plain:
  assumes "\<not> repeats layer"
  shows "hitTest layer c =
     Some ((toInt (fst c) - toInt (fst (location layer)),
            toInt (snd c) - toInt (snd (location layer))) \<in> layer_mask layer)"
  using assms by (simp add: hitTest_def hitRegion_def in_translated)

lemma hitTest_repeats_real:
  assumes "repeats layer"
  shows "hitTest layer c =
     (let lx = fst (location layer); ly = snd (location layer);
          w = real_of_int (width (layer_image layer));
          h = real_of_int (height (layer_image layer))
      in if (lx + w < 0 \<and> w = 0) \<or> (ly + h < 0 \<and> h = 0) then None
         else Some (let x = (if lx + w < 0 then lx - w * of_int (toInt (lx / w)) else lx);
                        y = (if ly + h < 0 then ly - h * of_int (toInt (ly / h)) else ly);
                        px = toInt (fst c); py = toInt (snd c)
                    in (px - toInt x, py - toInt y) \<in> layer_mask layer
                     \<or> (px - toInt (x + w), py - toInt y) \<in> layer_mask layer
                     \<or> (px - toInt x, py - toInt (y + h)) \<in> layer_mask layer
                     \<or> (px - toInt (x + w), py - toInt (y + h)) \<in> layer_mask layer))"
  using assms
  unfolding hitTest_def hitRegion_def renormalize_def fmod_def Let_def
  by (auto simp: in_translated)

text \<open>
  Claim C2.  For every queue, disabled set and point, \<^verbatim>\<open>lookupLayer\<close> returns the
  first layer in queue order that is enabled, whose id is not in the disabled set, and
  whose translated (for a repeating layer, replicated) mask contains the point: the
  result is position \<open>i\<close> exactly when layer \<open>i\<close> is such a layer and every such layer
  before it does not contain the point; and it returns none exactly when no such layer
  contains the point.  Nothing but the queue order decides between two layers that
  contain the point.  A layer that does not repeat contains the point exactly when the
  point less the layer's location is in its mask; a layer that repeats, when the point
  less the renormalised location, or less that location shifted by the width, the
  height or both, is in its mask.  (\<open>hitTest\<close> is \<open>None\<close>, and the lookup an error,
  where the code would convert a NaN to \<^verbatim>\<open>int\<close>.)
\<close>

theorem lookupLayer_first_match:
  "(lookupLayer q d c = Inr (Some i) \<longleftrightarrow>
      (i < length q \<and> enabled (q ! i) \<and> layer_id (q ! i) \<notin> d \<and> hitTest (q ! i) c = Some True \<and>
       (\<forall>j<i. enabled (q ! j) \<and> layer_id (q ! j) \<notin> d \<longrightarrow> hitTest (q ! j) c = Some False)))
   \<and> (lookupLayer q d c = Inr None \<longleftrightarrow>
      (\<forall>l\<in>set q. enabled l \<and> layer_id l \<notin> d \<longrightarrow> hitTest l c = Some False))
   \<and> (\<not> repeats layer \<longrightarrow>
        hitTest layer c =
          Some ((toInt (fst c) - toInt (fst (location layer)),
                 toInt (snd c) - toInt (snd (location layer))) \<in> layer_mask layer))
   \<and> (repeats layer \<longrightarrow>
        hitTest layer c =
          (let lx = fst (location layer); ly = snd (location layer);
               w = real_of_int (width (layer_image layer));
               h = real_of_int (height (layer_image layer))
           in if (lx + w < 0 \<and> w = 0) \<or> (ly + h < 0 \<and> h = 0) then None
              else Some (let x = (if lx + w < 0 then lx - w * of_int (toInt (lx / w)) else lx);
                             y = (if ly + h < 0 then ly - h * of_int (toInt (ly / h)) else ly);
                             px = toInt (fst c); py = toInt (snd c)
                         in (px - toInt x, py - toInt y) \<in> layer_mask layer
                          \<or> (px - toInt (x + w), py - toInt y) \<in> layer_mask layer
                          \<or> (px - toInt x, py - toInt (y + h)) \<in> layer_mask layer
                          \<or> (px - toInt (x + w), py - toInt (y + h)) \<in> layer_mask layer)))"
  using lookupLayer_Some [of q d c i] lookupLayer_None [of q d c]
    hitTest_plain [of layer c] hitTest_repeats_real [of layer c]
  by blast

text \<open>In the sample queue the sprite is disabled and both backgrounds contain the point
  (2, 3): the lookup returns the first background.  No layer contains (300, 3).  The
  sprite moved to (10, 20) contains (12, 23) and not (2, 3).\<close>

theorem lookupLayer_first_match_witness:
  "lookupLayer sampleQueue {\<lparr>type = SPRITE, index = 3\<rparr>} (2, 3) = Inr (Some 1)
   \<and> hitTest (sampleQueue ! 2) (2, 3) = Some True
   \<and> lookupLayer sampleQueue {} (300, 3) = Inr None
   \<and> hitTest (sampleSprite\<lparr>location := (10, 20)\<rparr>) (12, 23) = Some True
   \<and> hitTest (sampleSprite\<lparr>location := (10, 20)\<rparr>) (2, 3) = Some False"
proof -
  have a: "1 < length sampleQueue \<and> enabled (sampleQueue ! 1)
      \<and> layer_id (sampleQueue ! 1) \<notin> {\<lparr>type = SPRITE, index = 3\<rparr>}
      \<and> hitTest (sampleQueue ! 1) (2, 3) = Some True
      \<and> (\<forall>j<1. enabled (sampleQueue ! j) \<and> layer_id (sampleQueue ! j) \<notin> {\<lparr>type = SPRITE, index = 3\<rparr>}
            \<longrightarrow> hitTest (sampleQueue ! j) (2, 3) = Some False)"
    by (simp add: sampleQueue_def sample_hits) (simp add: sampleBg0_def sampleSprite_def)
  have b: "\<forall>l\<in>set sampleQueue. enabled l \<and> layer_id l \<notin> {} \<longrightarrow> hitTest l (300, 3) = Some False"
    by (simp add: sampleQueue_def hitTest_def hitRegion_def renormalize_def sampleBg0_def
          sampleBg1_def sampleSprite_def sampleBackdrop_def in_translated in_QRegion_rect Let_def)
  have c: "hitTest (sampleQueue ! 2) (2, 3) = Some True"
    by (simp add: sampleQueue_def sample_hits)
  let ?moved = "sampleSprite\<lparr>location := (10, 20)\<rparr>"
  have n: "\<not> repeats ?moved"
    by (simp add: sampleSprite_def)
  have "hitTest ?moved (12, 23) = Some True"
    using lookupLayer_first_match [of "[]" "{}" "(12, 23)" 0 ?moved] n
    by (simp add: sampleSprite_def in_QRegion_rect)
  moreover have "hitTest ?moved (2, 3) = Some False"
    using lookupLayer_first_match [of "[]" "{}" "(2, 3)" 0 ?moved] n
    by (simp add: sampleSprite_def in_QRegion_rect)
  ultimately show ?thesis
    using lookupLayer_first_match [of sampleQueue "{\<lparr>type = SPRITE, index = 3\<rparr>}" "(2, 3)" 1]
      lookupLayer_first_match [of sampleQueue "{}" "(300, 3)" 0] a b c
    by blast
qed

subsection \<open>Repeating layers\<close>

text \<open>On integers, \<^verbatim>\<open>fmod\<close> is the remainder of C's division, which truncates.\<close>

lemma toInt_divide_of_int: "toInt (of_int a / of_int b) = a sdiv b"
proof (cases "b = 0")
  case True
  then show ?thesis by (simp add: toInt_def)
next
  case False
  have abs: "\<lfloor>real_of_int \<bar>a\<bar> / real_of_int \<bar>b\<bar>\<rfloor> = \<bar>a\<bar> div \<bar>b\<bar>"
    by (rule floor_divide_of_int_eq)
  show ?thesis
  proof (cases "0 \<le> real_of_int a / real_of_int b")
    case True
    then have "real_of_int a / real_of_int b = real_of_int \<bar>a\<bar> / real_of_int \<bar>b\<bar>"
      by (metis abs_divide abs_of_nonneg of_int_abs)
    moreover have "sgn a * sgn b = 1 \<or> a = 0"
      using True False by (auto simp: sgn_if zero_le_divide_iff)
    ultimately show ?thesis
      using True abs by (auto simp: toInt_def signed_divide_int_def)
  next
    case neg: False
    then have "real_of_int a / real_of_int b = - (real_of_int \<bar>a\<bar> / real_of_int \<bar>b\<bar>)"
      by (metis abs_divide abs_of_neg of_int_abs minus_minus not_le)
    moreover have "sgn a * sgn b = - 1"
      using neg False by (auto simp: sgn_if zero_le_divide_iff not_le divide_less_0_iff)
    ultimately show ?thesis
      using neg abs by (simp add: toInt_def signed_divide_int_def ceiling_minus)
  qed
qed

lemma fmod_of_int:
  "fmod (of_int a) (of_int w) = (if w = 0 then None else Some (of_int (a smod w)))"
proof -
  have "a - w * (a sdiv w) = a smod w"
    by (rule minus_mult_sdiv_eq_smod)
  then have "real_of_int a - real_of_int w * real_of_int (a sdiv w) = real_of_int (a smod w)"
    by (metis of_int_diff of_int_mult)
  then show ?thesis
    by (simp add: fmod_def toInt_divide_of_int)
qed

lemma renormalize_of_int:
  "renormalize (of_int a) (of_int w) =
     (if a + w < 0 then (if w = 0 then None else Some (of_int (a smod w))) else Some (of_int a))"
proof -
  have "(real_of_int a + real_of_int w < 0) = (a + w < 0)"
    by (metis of_int_add of_int_less_0_iff)
  then show ?thesis
    by (simp add: renormalize_def fmod_of_int)
qed

lemma toInt_add_of_int: "toInt (of_int a + of_int b) = a + b"
  by (metis of_int_add toInt_of_int)

lemma hitTest_repeats_int:
  assumes "repeats layer" and "location layer = (of_int a, of_int b)"
    and "width (layer_image layer) = w" and "height (layer_image layer) = h"
  shows "hitTest layer c =
     (if (a + w < 0 \<and> w = 0) \<or> (b + h < 0 \<and> h = 0) then None
      else Some (let x = (if a + w < 0 then a smod w else a);
                     y = (if b + h < 0 then b smod h else b);
                     px = toInt (fst c); py = toInt (snd c)
                 in (px - x, py - y) \<in> layer_mask layer
                  \<or> (px - (x + w), py - y) \<in> layer_mask layer
                  \<or> (px - x, py - (y + h)) \<in> layer_mask layer
                  \<or> (px - (x + w), py - (y + h)) \<in> layer_mask layer))"
proof -
  have loc: "fst (location layer) = of_int a" "snd (location layer) = of_int b"
    using assms(2) by simp_all
  show ?thesis
    unfolding hitTest_def hitRegion_def Let_def loc assms(3,4) renormalize_of_int
    using assms(1) by (auto simp: in_translated toInt_add_of_int)
qed

lemma hitTest_wrap_example:
  assumes "repeats layer" and "location layer = (- 5, 0)"
    and "width (layer_image layer) = w" and "5 \<le> w"
    and "\<forall>p\<in>layer_mask layer. 0 \<le> fst p \<and> fst p < w"
  shows "hitTest layer (of_int w - 3, y) = hitTest layer (- 3, y)"
    and "hitTest layer (- 3, y) = Some ((2, toInt y) \<in> layer_mask layer
           \<or> (2, toInt y - height (layer_image layer)) \<in> layer_mask layer)"
proof -
  have loc: "location layer = (of_int (- 5), of_int 0)"
    using assms(2) by simp
  have out: "(2 + w, k) \<notin> layer_mask layer" "(2 - w, k) \<notin> layer_mask layer" for k
    using assms(4,5) by force+
  have l: "real_of_int w - 3 = real_of_int (w - 3)" "(- 3 :: real) = real_of_int (- 3)"
    by simp_all
  show "hitTest layer (of_int w - 3, y) = hitTest layer (- 3, y)"
    unfolding hitTest_repeats_int [OF assms(1) loc assms(3) refl] l
    using assms(4) out by (auto simp: Let_def simp del: of_int_diff of_int_minus)
  show "hitTest layer (- 3, y) = Some ((2, toInt y) \<in> layer_mask layer
           \<or> (2, toInt y - height (layer_image layer)) \<in> layer_mask layer)"
    unfolding hitTest_repeats_int [OF assms(1) loc assms(3) refl] l
    using assms(4) out by (auto simp: Let_def simp del: of_int_diff of_int_minus)
qed

text \<open>
  Claim C3, as the code has it.  For a repeating layer with an image of width \<open>w\<close> and
  height \<open>h\<close>, a point is hit exactly when it lies in the mask translated to \<open>(x, y)\<close>,
  to \<open>(x + w, y)\<close>, to \<open>(x, y + h)\<close> or to \<open>(x + w, y + h)\<close>, where \<open>x\<close> is the
  horizontal location, renormalised by \<^verbatim>\<open>fmod\<close> with \<open>w\<close> only when location plus
  \<open>w\<close> is negative, and \<open>y\<close> likewise (the test is undefined where \<^verbatim>\<open>fmod\<close> is by
  zero); at an integer location \<^verbatim>\<open>fmod\<close> is the remainder of the truncating
  division.  In particular, for the location \<open>(-5, 0)\<close>, a width \<open>w\<close> of at least 5
  (the placement is not renormalised) and a mask inside the image's columns, the hit
  test at \<open>(w - 3, y)\<close> agrees with the hit test at \<open>(-3, y)\<close>, the same point of the
  primary placement: both test the mask at column 2.
\<close>

theorem hitTest_repeating_layer:
  assumes "repeats layer"
  shows "hitTest layer c =
          (let lx = fst (location layer); ly = snd (location layer);
               w = real_of_int (width (layer_image layer));
               h = real_of_int (height (layer_image layer))
           in if (lx + w < 0 \<and> w = 0) \<or> (ly + h < 0 \<and> h = 0) then None
              else Some (let x = (if lx + w < 0 then lx - w * of_int (toInt (lx / w)) else lx);
                             y = (if ly + h < 0 then ly - h * of_int (toInt (ly / h)) else ly);
                             px = toInt (fst c); py = toInt (snd c)
                         in (px - toInt x, py - toInt y) \<in> layer_mask layer
                          \<or> (px - toInt (x + w), py - toInt y) \<in> layer_mask layer
                          \<or> (px - toInt x, py - toInt (y + h)) \<in> layer_mask layer
                          \<or> (px - toInt (x + w), py - toInt (y + h)) \<in> layer_mask layer))
    \<and> (location layer = (of_int a, of_int b) \<longrightarrow>
         hitTest layer c =
          (if (a + width (layer_image layer) < 0 \<and> width (layer_image layer) = 0)
              \<or> (b + height (layer_image layer) < 0 \<and> height (layer_image layer) = 0) then None
           else Some (let w = width (layer_image layer); h = height (layer_image layer);
                          x = (if a + w < 0 then a smod w else a);
                          y = (if b + h < 0 then b smod h else b);
                          px = toInt (fst c); py = toInt (snd c)
                      in (px - x, py - y) \<in> layer_mask layer
                       \<or> (px - (x + w), py - y) \<in> layer_mask layer
                       \<or> (px - x, py - (y + h)) \<in> layer_mask layer
                       \<or> (px - (x + w), py - (y + h)) \<in> layer_mask layer)))
    \<and> (location layer = (- 5, 0) \<and> 5 \<le> width (layer_image layer)
          \<and> (\<forall>p\<in>layer_mask layer. 0 \<le> fst p \<and> fst p < width (layer_image layer)) \<longrightarrow>
         hitTest layer (of_int (width (layer_image layer)) - 3, snd c) = hitTest layer (- 3, snd c)
       \<and> hitTest layer (- 3, snd c)
           = Some ((2, toInt (snd c)) \<in> layer_mask layer
                 \<or> (2, toInt (snd c) - height (layer_image layer)) \<in> layer_mask layer))"
proof (intro conjI impI)
  show "hitTest layer c =
          (let lx = fst (location layer); ly = snd (location layer);
               w = real_of_int (width (layer_image layer));
               h = real_of_int (height (layer_image layer))
           in if (lx + w < 0 \<and> w = 0) \<or> (ly + h < 0 \<and> h = 0) then None
              else Some (let x = (if lx + w < 0 then lx - w * of_int (toInt (lx / w)) else lx);
                             y = (if ly + h < 0 then ly - h * of_int (toInt (ly / h)) else ly);
                             px = toInt (fst c); py = toInt (snd c)
                         in (px - toInt x, py - toInt y) \<in> layer_mask layer
                          \<or> (px - toInt (x + w), py - toInt y) \<in> layer_mask layer
                          \<or> (px - toInt x, py - toInt (y + h)) \<in> layer_mask layer
                          \<or> (px - toInt (x + w), py - toInt (y + h)) \<in> layer_mask layer))"
    by (rule hitTest_repeats_real [OF assms])
next
  assume "location layer = (of_int a, of_int b)"
  then show "hitTest layer c =
          (if (a + width (layer_image layer) < 0 \<and> width (layer_image layer) = 0)
              \<or> (b + height (layer_image layer) < 0 \<and> height (layer_image layer) = 0) then None
           else Some (let w = width (layer_image layer); h = height (layer_image layer);
                          x = (if a + w < 0 then a smod w else a);
                          y = (if b + h < 0 then b smod h else b);
                          px = toInt (fst c); py = toInt (snd c)
                      in (px - x, py - y) \<in> layer_mask layer
                       \<or> (px - (x + w), py - y) \<in> layer_mask layer
                       \<or> (px - x, py - (y + h)) \<in> layer_mask layer
                       \<or> (px - (x + w), py - (y + h)) \<in> layer_mask layer))"
    using hitTest_repeats_int [OF assms _ refl refl, of a b c] by (simp add: Let_def)
next
  assume ex: "location layer = (- 5, 0) \<and> 5 \<le> width (layer_image layer)
          \<and> (\<forall>p\<in>layer_mask layer. 0 \<le> fst p \<and> fst p < width (layer_image layer))"
  from ex show "hitTest layer (of_int (width (layer_image layer)) - 3, snd c)
                  = hitTest layer (- 3, snd c)"
    using hitTest_wrap_example(1) [OF assms _ refl] by blast
  from ex show "hitTest layer (- 3, snd c)
           = Some ((2, toInt (snd c)) \<in> layer_mask layer
                 \<or> (2, toInt (snd c) - height (layer_image layer)) \<in> layer_mask layer)"
    using hitTest_wrap_example(2) [OF assms _ refl] by blast
qed

text \<open>The sample background at \<open>(-5, 0)\<close> is 16 wide: the points \<open>(13, 7)\<close> and
  \<open>(-3, 7)\<close> are both hit.  Moved to \<open>(-37, 0)\<close> it is renormalised to \<open>-5\<close>, so
  that its two copies cover the columns from \<open>-5\<close> to 26.\<close>

theorem hitTest_repeating_layer_witness:
  "repeats sampleBg0 \<and> location sampleBg0 = (- 5, 0) \<and> width (layer_image sampleBg0) = 16
   \<and> hitTest sampleBg0 (of_int 16 - 3, 7) = hitTest sampleBg0 (- 3, 7)
   \<and> hitTest sampleBg0 (- 3, 7) = Some True
   \<and> hitTest sampleBg0 (of_int 16 - 3, 7) = Some True
   \<and> hitTest (sampleBg0\<lparr>location := (of_int (- 37), of_int 0)\<rparr>) (2, 3) = Some True
   \<and> hitTest (sampleBg0\<lparr>location := (of_int (- 37), of_int 0)\<rparr>) (11, 3) = Some True
   \<and> hitTest (sampleBg0\<lparr>location := (of_int (- 37), of_int 0)\<rparr>) (27, 3) = Some False"
proof -
  have h: "repeats sampleBg0" "location sampleBg0 = (- 5, 0)"
    "width (layer_image sampleBg0) = 16" "height (layer_image sampleBg0) = 16"
    by (simp_all add: sampleBg0_def)
  have m: "location sampleBg0 = (- 5, 0) \<and> 5 \<le> width (layer_image sampleBg0)
      \<and> (\<forall>p\<in>layer_mask sampleBg0. 0 \<le> fst p \<and> fst p < width (layer_image sampleBg0))"
    by (auto simp: sampleBg0_def in_QRegion_rect)
  have v: "(2, toInt 7) \<in> layer_mask sampleBg0"
    by (simp add: sampleBg0_def in_QRegion_rect)
  let ?far = "sampleBg0\<lparr>location := (of_int (- 37), of_int 0)\<rparr>"
  have f: "repeats ?far" "location ?far = (of_int (- 37), of_int 0)"
    "width (layer_image ?far) = 16" "height (layer_image ?far) = 16"
    by (simp_all add: sampleBg0_def)
  have r: "(- 37 :: int) smod 16 = - 5"
    by (simp add: signed_modulo_int_def)
  have far: "hitTest ?far c =
          (if (- 37 + width (layer_image ?far) < 0 \<and> width (layer_image ?far) = 0)
              \<or> (0 + height (layer_image ?far) < 0 \<and> height (layer_image ?far) = 0) then None
           else Some (let w = width (layer_image ?far); h = height (layer_image ?far);
                          x = (if - 37 + w < 0 then - 37 smod w else - 37);
                          y = (if 0 + h < 0 then 0 smod h else 0);
                          px = toInt (fst c); py = toInt (snd c)
                      in (px - x, py - y) \<in> layer_mask ?far
                       \<or> (px - (x + w), py - y) \<in> layer_mask ?far
                       \<or> (px - x, py - (y + h)) \<in> layer_mask ?far
                       \<or> (px - (x + w), py - (y + h)) \<in> layer_mask ?far))" for c
    using hitTest_repeating_layer [OF f(1), of c "- 37" 0] f(2) by blast
  have "hitTest ?far (2, 3) = Some True" "hitTest ?far (11, 3) = Some True"
    "hitTest ?far (27, 3) = Some False"
    unfolding far by (simp_all add: r sampleBg0_def in_QRegion_rect Let_def)
  moreover have "hitTest sampleBg0 (of_int 16 - 3, 7) = hitTest sampleBg0 (- 3, 7)
       \<and> hitTest sampleBg0 (- 3, 7) = Some True"
    using hitTest_repeating_layer [OF h(1), of "(0, 7)" 0 0] m v by (simp add: h)
  ultimately show ?thesis
    using h by simp
qed

text \<open>
  The claim itself has the example for every width and every mask: there it fails.
  A background four pixels wide at \<open>(-5, 0)\<close> is renormalised to \<open>-1\<close>; it is hit at
  \<open>(1, 7)\<close>, which is \<open>(w - 3, 7)\<close>, and not at \<open>(-3, 7)\<close>.  And a background 16 wide
  whose mask is the one point \<open>(18, 7)\<close>, outside its image, is hit at \<open>(13, 7)\<close> and
  not at \<open>(-3, 7)\<close>.
\<close>

theorem hitTest_wrap_narrow_counterexample:
  "repeats sampleNarrow \<and> location sampleNarrow = (- 5, 0) \<and> width (layer_image sampleNarrow) = 4
   \<and> hitTest sampleNarrow (of_int 4 - 3, 7) = Some True
   \<and> hitTest sampleNarrow (- 3, 7) = Some False
   \<and> repeats sampleStray \<and> location sampleStray = (- 5, 0) \<and> width (layer_image sampleStray) = 16
   \<and> hitTest sampleStray (of_int 16 - 3, 7) = Some True
   \<and> hitTest sampleStray (- 3, 7) = Some False"
proof -
  have r: "(- 5 :: int) smod 4 = - 1"
    by (simp add: signed_modulo_int_def)
  have n: "repeats sampleNarrow" "location sampleNarrow = (of_int (- 5), of_int 0)"
    "width (layer_image sampleNarrow) = 4" "height (layer_image sampleNarrow) = 16"
    by (simp_all add: sampleNarrow_def)
  have s: "repeats sampleStray" "location sampleStray = (of_int (- 5), of_int 0)"
    "width (layer_image sampleStray) = 16" "height (layer_image sampleStray) = 16"
    by (simp_all add: sampleStray_def sampleBg0_def)
  have "hitTest sampleNarrow (of_int 4 - 3, 7) = Some True"
    "hitTest sampleNarrow (- 3, 7) = Some False"
    unfolding hitTest_repeats_int [OF n]
    by (simp_all add: r sampleNarrow_def in_QRegion_rect Let_def)
  moreover have "hitTest sampleStray (of_int 16 - 3, 7) = Some True"
    "hitTest sampleStray (- 3, 7) = Some False"
    unfolding hitTest_repeats_int [OF s]
    by (simp_all add: sampleStray_def sampleBg0_def Let_def)
  ultimately show ?thesis
    using n s by simp
qed

section \<open>Injection\<close>

text \<open>The loop over the queue in closed form: it fails exactly when it writes outside a
  highlight array, and otherwise appends each layer's calls and sets the highlight of
  the active layer.\<close>

lemma injectLayer_eq:
  "injectLayer a c l =
     (if outOfBounds a [l] then Inl OutOfBounds
      else Inr (c\<lparr>injected := injected c @ layerCalls l,
                  renderer := (renderer c)
                    \<lparr>highlightBG := highlightIn a [l] BACKGROUND (highlightBG (renderer c)),
                     highlightOBJ := highlightIn a [l] SPRITE (highlightOBJ (renderer c))\<rparr>\<rparr>))"
  by (cases "type (layer_id l)")
     (auto simp: injectLayer_def outOfBounds_def layerCalls_def highlightIn_def Let_def)

lemma outOfBounds_Cons:
  "outOfBounds a (l # q) \<longleftrightarrow> outOfBounds a [l] \<or> outOfBounds a q"
  by (auto simp: outOfBounds_def)

lemma highlightIn_Cons:
  "highlightIn a (l # q) t hl = highlightIn a q t (highlightIn a [l] t hl)"
  by (auto simp: highlightIn_def)

lemma injectLayers_eq:
  "injectLayers a q c =
     (if outOfBounds a q then Inl OutOfBounds
      else Inr (c\<lparr>injected := injected c @ concat (map layerCalls q),
                  renderer := (renderer c)
                    \<lparr>highlightBG := highlightIn a q BACKGROUND (highlightBG (renderer c)),
                     highlightOBJ := highlightIn a q SPRITE (highlightOBJ (renderer c))\<rparr>\<rparr>))"
proof (induction q arbitrary: c)
  case Nil
  show ?case by (simp add: outOfBounds_def highlightIn_def)
next
  case (Cons l q)
  show ?case
  proof (cases "outOfBounds a [l]")
    case True
    then show ?thesis
      by (simp add: injectLayer_eq outOfBounds_Cons [of a l q])
  next
    case False
    then show ?thesis
      by (simp add: injectLayer_eq Cons.IH outOfBounds_Cons [of a l q] highlightIn_Cons [of a l q])
  qed
qed

lemma injectGBA_eq:
  "injectGBA s c =
     (if outOfBounds (m_active s) (m_queue s) then Inl OutOfBounds
      else Inr (c\<lparr>injected := injected c
                    @ InjectionPoint LOGGER_INJECTION_FIRST_SCANLINE
                    # concat (map layerCalls (m_queue s))
                    @ [IgnoreAfterInjection
                         (if ui_disableScanline s = Checked
                          then {DIRTY_PALETTE, DIRTY_OAM, DIRTY_REGISTER} else {})],
                  renderer :=
                    \<lparr>highlightBG = highlightIn (m_active s) (m_queue s) BACKGROUND (replicate 4 False),
                     highlightOBJ = highlightIn (m_active s) (m_queue s) SPRITE (replicate 128 False),
                     highlightColor = ui_highlightedText s,
                     highlightAmount = sin (real_of_int (m_glowFrame s) * pi / 30) * 64 + 64\<rparr>\<rparr>))"
  by (simp add: injectGBA_def injectLayers_eq Let_def)

lemma in_layerCalls:
  "c \<in> set (layerCalls l) \<longleftrightarrow>
     (type (layer_id l) = SPRITE \<and> \<not> enabled l \<and> c = InjectOAM (index (layer_id l) * 4) 0x200)
   \<or> (type (layer_id l) = BACKGROUND \<and> c = enableVideoLayer (index (layer_id l)) (enabled l))"
  by (cases "type (layer_id l)") (auto simp: layerCalls_def push_bit_eq_mult)

text \<open>
  Claim C1.  When an injection pass returns, the calls it has made on the replay log
  are the injection point "first scanline", then the calls of the loop, then the mask
  of what is ignored after the injection.  Among the calls of the loop there is, for
  every sprite layer of the queue that is not enabled, the OAM injection of the value
  0x200 at the address \<open>index * 4\<close>; and for every background layer the call of
  \<^verbatim>\<open>enableVideoLayer\<close> with the layer's index and its enabled flag.  The loop makes
  no other call: an OAM injection comes from a disabled sprite only, a background is
  never patched into the log.
\<close>

theorem injectGBA_injections:
  assumes "injectGBA s core = Inr core'"
  shows "\<exists>calls ignored.
      injected core' = injected core @ InjectionPoint LOGGER_INJECTION_FIRST_SCANLINE # calls
                         @ [IgnoreAfterInjection ignored]
    \<and> (\<forall>l\<in>set (m_queue s). type (layer_id l) = SPRITE \<and> \<not> enabled l \<longrightarrow>
          InjectOAM (index (layer_id l) * 4) 0x200 \<in> set calls)
    \<and> (\<forall>l\<in>set (m_queue s). type (layer_id l) = BACKGROUND \<longrightarrow>
          enableVideoLayer (index (layer_id l)) (enabled l) \<in> set calls)
    \<and> (\<forall>c\<in>set calls.
          (\<exists>l\<in>set (m_queue s). type (layer_id l) = SPRITE \<and> \<not> enabled l
              \<and> c = InjectOAM (index (layer_id l) * 4) 0x200)
        \<or> (\<exists>l\<in>set (m_queue s). type (layer_id l) = BACKGROUND
              \<and> c = enableVideoLayer (index (layer_id l)) (enabled l)))"
proof -
  let ?calls = "concat (map layerCalls (m_queue s))"
  let ?ignored = "if ui_disableScanline s = Checked
                  then {DIRTY_PALETTE, DIRTY_OAM, DIRTY_REGISTER} else {}"
  have "injected core' = injected core @ InjectionPoint LOGGER_INJECTION_FIRST_SCANLINE # ?calls
                         @ [IgnoreAfterInjection ?ignored]"
    using assms by (auto simp: injectGBA_eq split: if_splits)
  moreover have "\<forall>l\<in>set (m_queue s). type (layer_id l) = SPRITE \<and> \<not> enabled l \<longrightarrow>
          InjectOAM (index (layer_id l) * 4) 0x200 \<in> set ?calls"
    by (auto simp: in_layerCalls)
  moreover have "\<forall>l\<in>set (m_queue s). type (layer_id l) = BACKGROUND \<longrightarrow>
          enableVideoLayer (index (layer_id l)) (enabled l) \<in> set ?calls"
    by (auto simp: in_layerCalls)
  moreover have "\<forall>c\<in>set ?calls.
          (\<exists>l\<in>set (m_queue s). type (layer_id l) = SPRITE \<and> \<not> enabled l
              \<and> c = InjectOAM (index (layer_id l) * 4) 0x200)
        \<or> (\<exists>l\<in>set (m_queue s). type (layer_id l) = BACKGROUND
              \<and> c = enableVideoLayer (index (layer_id l)) (enabled l))"
    by (auto simp: in_layerCalls)
  ultimately show ?thesis by blast
qed

lemma sample_in_bounds: "\<not> outOfBounds (m_active sampleView) (m_queue sampleView)"
  by (simp add: outOfBounds_def sampleView_def)

theorem injectGBA_injections_witness:
  "\<exists>core' calls ignored.
      injectGBA sampleView sampleCore = Inr core'
    \<and> injected core' = InjectionPoint LOGGER_INJECTION_FIRST_SCANLINE # calls
                         @ [IgnoreAfterInjection ignored]
    \<and> InjectOAM 12 0x200 \<in> set calls
    \<and> enableVideoLayer 0 True \<in> set calls \<and> enableVideoLayer 1 True \<in> set calls"
proof -
  obtain core' where r: "injectGBA sampleView sampleCore = Inr core'"
    using sample_in_bounds by (simp add: injectGBA_eq)
  have q: "sampleSprite \<in> set (m_queue sampleView)" "sampleBg0 \<in> set (m_queue sampleView)"
    "sampleBg1 \<in> set (m_queue sampleView)"
    by (simp_all add: sampleView_def sampleQueue_def)
  have l: "type (layer_id sampleSprite) = SPRITE \<and> \<not> enabled sampleSprite"
    "index (layer_id sampleSprite) * 4 = 12"
    "type (layer_id sampleBg0) = BACKGROUND" "index (layer_id sampleBg0) = 0" "enabled sampleBg0"
    "type (layer_id sampleBg1) = BACKGROUND" "index (layer_id sampleBg1) = 1" "enabled sampleBg1"
    by (simp_all add: sampleSprite_def sampleBg0_def sampleBg1_def)
  have e: "injected sampleCore = []"
    by (simp add: sampleCore_def)
  from injectGBA_injections [OF r] obtain calls ignored where
    i: "injected core' = injected sampleCore @ InjectionPoint LOGGER_INJECTION_FIRST_SCANLINE # calls
                           @ [IgnoreAfterInjection ignored]"
    and sp: "\<forall>l\<in>set (m_queue sampleView). type (layer_id l) = SPRITE \<and> \<not> enabled l \<longrightarrow>
          InjectOAM (index (layer_id l) * 4) 0x200 \<in> set calls"
    and bg: "\<forall>l\<in>set (m_queue sampleView). type (layer_id l) = BACKGROUND \<longrightarrow>
          enableVideoLayer (index (layer_id l)) (enabled l) \<in> set calls"
    by blast
  have "InjectOAM 12 0x200 \<in> set calls"
    using sp q(1) l(1,2) by force
  moreover have "enableVideoLayer 0 True \<in> set calls"
    using bg q(2) l(3,4,5) by force
  moreover have "enableVideoLayer 1 True \<in> set calls"
    using bg q(3) l(6,7,8) by force
  ultimately show ?thesis
    using r i e by auto
qed

subsection \<open>Highlights\<close>

lemma length_highlightIn [simp]: "length (highlightIn a q t hl) = length hl"
  by (simp add: highlightIn_def)

lemma LayerId_eq: "a = \<lparr>type = t, index = i\<rparr> \<longleftrightarrow> type a = t \<and> index a = i"
  by (cases a) auto

lemma replicate_update_nth:
  "i < n \<Longrightarrow> (replicate n False)[k := True] ! i \<longleftrightarrow> k = i"
  by (cases "k < n") (auto simp: nth_list_update)

lemma highlightIn_nth:
  "i < n \<Longrightarrow> highlightIn a q t (replicate n False) ! i
     \<longleftrightarrow> type a = t \<and> a \<in> layer_id ` set q \<and> nat (index a) = i"
  by (auto simp: highlightIn_def replicate_update_nth)

lemma count_one_set:
  "length (filter (\<lambda>b. b) ((replicate n False)[k := True])) \<le> 1"
proof (induction n arbitrary: k)
  case 0
  show ?case by simp
next
  case (Suc n)
  show ?case
    using Suc.IH by (cases k) simp_all
qed

lemma count_highlightIn:
  "length (filter (\<lambda>b. b) (highlightIn a q t (replicate n False)))
     \<le> (if type a = t then 1 else 0)"
  using count_one_set [of n "nat (index a)"] by (simp add: highlightIn_def)

text \<open>
  Claim C10.  When an injection pass returns, the highlight arrays have their 4 and 128
  entries; entry \<open>i\<close> of \<^verbatim>\<open>highlightBG\<close> is set exactly when the active layer is
  background \<open>i\<close> and is the id of a layer of the queue, entry \<open>i\<close> of
  \<^verbatim>\<open>highlightOBJ\<close> exactly when the active layer is sprite \<open>i\<close> and is in the queue;
  so the flags do not depend on what they were before the pass, and at most one of
  them is set.
\<close>

theorem injectGBA_highlight:
  assumes "injectGBA s core = Inr core'"
  shows "length (highlightBG (renderer core')) = 4 \<and> length (highlightOBJ (renderer core')) = 128
    \<and> (\<forall>i<4. highlightBG (renderer core') ! i \<longleftrightarrow>
          m_active s = \<lparr>type = BACKGROUND, index = int i\<rparr> \<and> m_active s \<in> layer_id ` set (m_queue s))
    \<and> (\<forall>i<128. highlightOBJ (renderer core') ! i \<longleftrightarrow>
          m_active s = \<lparr>type = SPRITE, index = int i\<rparr> \<and> m_active s \<in> layer_id ` set (m_queue s))
    \<and> length (filter (\<lambda>b. b) (highlightBG (renderer core') @ highlightOBJ (renderer core'))) \<le> 1"
proof -
  let ?a = "m_active s" and ?q = "m_queue s"
  have ok: "\<not> outOfBounds ?a ?q"
    using assms by (auto simp: injectGBA_eq split: if_splits)
  have bg: "highlightBG (renderer core') = highlightIn ?a ?q BACKGROUND (replicate 4 False)"
    and obj: "highlightOBJ (renderer core') = highlightIn ?a ?q SPRITE (replicate 128 False)"
    using assms by (auto simp: injectGBA_eq split: if_splits)
  have "\<forall>i<4. highlightBG (renderer core') ! i \<longleftrightarrow>
          ?a = \<lparr>type = BACKGROUND, index = int i\<rparr> \<and> ?a \<in> layer_id ` set ?q"
    using ok unfolding bg outOfBounds_def LayerId_eq
    by (auto simp: highlightIn_nth)
  moreover have "\<forall>i<128. highlightOBJ (renderer core') ! i \<longleftrightarrow>
          ?a = \<lparr>type = SPRITE, index = int i\<rparr> \<and> ?a \<in> layer_id ` set ?q"
    using ok unfolding obj outOfBounds_def LayerId_eq
    by (auto simp: highlightIn_nth)
  moreover have "length (filter (\<lambda>b. b) (highlightBG (renderer core') @ highlightOBJ (renderer core'))) \<le> 1"
    using count_highlightIn [of ?a ?q BACKGROUND 4] count_highlightIn [of ?a ?q SPRITE 128]
    unfolding bg obj by (auto split: if_splits)
  ultimately show ?thesis
    by (simp add: bg obj)
qed

theorem injectGBA_highlight_witness:
  "\<exists>core'. injectGBA sampleView sampleCore = Inr core'
     \<and> highlightBG (renderer core') ! 0 \<and> \<not> highlightBG (renderer core') ! 1
     \<and> \<not> highlightOBJ (renderer core') ! 3
     \<and> length (filter (\<lambda>b. b) (highlightBG (renderer core') @ highlightOBJ (renderer core'))) \<le> 1"
proof -
  obtain core' where r: "injectGBA sampleView sampleCore = Inr core'"
    using sample_in_bounds by (simp add: injectGBA_eq)
  have a: "m_active sampleView = \<lparr>type = BACKGROUND, index = int 0\<rparr>"
    "m_active sampleView \<in> layer_id ` set (m_queue sampleView)"
    "m_active sampleView \<noteq> \<lparr>type = BACKGROUND, index = int 1\<rparr>"
    "m_active sampleView \<noteq> \<lparr>type = SPRITE, index = int 3\<rparr>"
    by (simp_all add: sampleView_def sampleQueue_def sampleBg0_def)
  have n: "(0::nat) < 4" "(1::nat) < 4" "(3::nat) < 128"
    by simp_all
  show ?thesis
    using injectGBA_highlight [OF r] r a n by blast
qed

section \<open>Re-rendering\<close>

text \<open>The replay step in closed form, and the members that a re-render leaves alone.\<close>

lemma replayFrame_eq:
  "replayFrame ctl s =
     (case m_vl s of
        None \<Rightarrow> Inr s
      | Some core \<Rightarrow>
          if platform ctl = PLATFORM_GBA \<and> outOfBounds (m_active s) (m_queue s)
          then Inl OutOfBounds
          else (case m_framebuffer s of
                  None \<Rightarrow> Inl NullVideoBuffer
                | Some old \<Rightarrow>
                    Inr (s\<lparr>m_vl := Some (replayed (platform ctl) s core),
                           m_framebuffer := Some (runFrame (replayed (platform ctl) s core))\<rparr>)))"
  by (cases "platform ctl")
     (auto simp: replayFrame_def injectGBA_eq injectGB_def reset_def replayed_def
           split: option.splits)

lemma replayFrame_keeps:
  assumes "replayFrame ctl s = Inr s'"
  shows "m_queue s' = m_queue s" "m_disabled s' = m_disabled s" "m_active s' = m_active s"
    "m_glowFrame s' = m_glowFrame s" "m_dims s' = m_dims s" "m_rendered s' = m_rendered s"
    "ui_freeze s' = ui_freeze s" "ui_disableScanline s' = ui_disableScanline s"
    "ui_magnification s' = ui_magnification s" "ui_highlightedText s' = ui_highlightedText s"
  using assms by (auto simp: replayFrame_eq split: option.splits if_splits)

lemma composite_keeps:
  "m_queue (composite ctl s) = m_queue s" "m_disabled (composite ctl s) = m_disabled s"
  "m_active (composite ctl s) = m_active s" "m_glowFrame (composite ctl s) = m_glowFrame s"
  "m_dims (composite ctl s) = m_dims s" "m_vl (composite ctl s) = m_vl s"
  "m_framebuffer (composite ctl s) = m_framebuffer s"
  "ui_freeze (composite ctl s) = ui_freeze s"
  "ui_disableScanline (composite ctl s) = ui_disableScanline s"
  "ui_magnification (composite ctl s) = ui_magnification s"
  "ui_highlightedText (composite ctl s) = ui_highlightedText s"
  by (simp_all add: composite_def updateRendered_def Let_def split: option.splits)

lemma syncList_keeps:
  "m_queue (syncList s) = m_queue s" "m_disabled (syncList s) = m_disabled s"
  "m_active (syncList s) = m_active s" "m_glowFrame (syncList s) = m_glowFrame s"
  "m_dims (syncList s) = m_dims s" "m_vl (syncList s) = m_vl s"
  "m_framebuffer (syncList s) = m_framebuffer s" "m_rendered (syncList s) = m_rendered s"
  "ui_freeze (syncList s) = ui_freeze s"
  "ui_disableScanline (syncList s) = ui_disableScanline s"
  "ui_magnification (syncList s) = ui_magnification s"
  "ui_highlightedText (syncList s) = ui_highlightedText s"
  by (simp_all add: syncList_def)

lemma invalidateQueue_keeps:
  assumes "invalidateQueue ctl dims s = Inr s'"
  shows "m_queue s' = m_queue s" "m_disabled s' = m_disabled s" "m_active s' = m_active s"
    "m_glowFrame s' = m_glowFrame s"
    "ui_freeze s' = ui_freeze s" "ui_disableScanline s' = ui_disableScanline s"
    "ui_magnification s' = ui_magnification s" "ui_highlightedText s' = ui_highlightedText s"
    "m_dims s' = (if QSize_isValid dims then dims else m_dims s)"
proof -
  let ?s0 = "if QSize_isValid dims then s\<lparr>m_dims := dims\<rparr> else s"
  obtain s1 where r: "replayFrame ctl ?s0 = Inr s1" and s': "s' = composite ctl (syncList s1)"
    using assms by (auto simp: invalidateQueue_def split: sum.splits)
  note k = replayFrame_keeps [OF r]
  show "m_queue s' = m_queue s" "m_disabled s' = m_disabled s" "m_active s' = m_active s"
    "m_glowFrame s' = m_glowFrame s"
    "ui_freeze s' = ui_freeze s" "ui_disableScanline s' = ui_disableScanline s"
    "ui_magnification s' = ui_magnification s" "ui_highlightedText s' = ui_highlightedText s"
    "m_dims s' = (if QSize_isValid dims then dims else m_dims s)"
    unfolding s' composite_keeps syncList_keeps k by simp_all
qed

lemma invalidateQueue_returns:
  assumes "m_vl s = None \<or> m_framebuffer s \<noteq> None
             \<and> \<not> (platform ctl = PLATFORM_GBA \<and> outOfBounds (m_active s) (m_queue s))"
  shows "\<exists>s'. invalidateQueue ctl dims s = Inr s'"
  using assms
  by (auto simp: invalidateQueue_def replayFrame_eq split: option.splits)

section \<open>Selecting and toggling\<close>

lemma sample_lookup:
  "lookupLayer (m_queue sampleView) (m_disabled sampleView) (2, 3) = Inr (Some 1)"
proof -
  have "1 < length sampleQueue \<and> enabled (sampleQueue ! 1)
      \<and> layer_id (sampleQueue ! 1) \<notin> {\<lparr>type = SPRITE, index = 3\<rparr>}
      \<and> hitTest (sampleQueue ! 1) (2, 3) = Some True
      \<and> (\<forall>j<1. enabled (sampleQueue ! j) \<and> layer_id (sampleQueue ! j) \<notin> {\<lparr>type = SPRITE, index = 3\<rparr>}
            \<longrightarrow> hitTest (sampleQueue ! j) (2, 3) = Some False)"
    by (simp add: sampleQueue_def sample_hits) (simp add: sampleBg0_def sampleSprite_def)
  then show ?thesis
    using lookupLayer_Some [of sampleQueue "{\<lparr>type = SPRITE, index = 3\<rparr>}" "(2, 3)" 1]
    by (simp add: sampleView_def)
qed

lemma no_highlight_without_active:
  assumes "type (m_active s) = NONE"
  shows "\<exists>core'. injectGBA s core = Inr core'
           \<and> (\<forall>b\<in>set (highlightBG (renderer core') @ highlightOBJ (renderer core')). \<not> b)"
  using assms by (simp add: injectGBA_eq outOfBounds_def highlightIn_def)

text \<open>
  Claim C7.  When the point hits layer \<open>i\<close> of the queue, \<^verbatim>\<open>selectLayer\<close> returns
  with the glow frame counter at zero; the active layer becomes the id of the layer
  hit when that id was not active, and the default id (no layer) when it was.  After
  such a deselection every injection pass returns with no highlight flag set.
\<close>

theorem selectLayer_toggles_active:
  assumes "lookupLayer (m_queue s) (m_disabled s) coord = Inr (Some i)"
  shows "\<exists>s'. selectLayer coord s = Inr s' \<and> m_glowFrame s' = 0 \<and> m_queue s' = m_queue s
     \<and> (layer_id (m_queue s ! i) \<noteq> m_active s \<longrightarrow> m_active s' = layer_id (m_queue s ! i))
     \<and> (layer_id (m_queue s ! i) = m_active s \<longrightarrow>
          m_active s' = LayerId_default
        \<and> (\<forall>core. \<exists>core'. injectGBA s' core = Inr core'
              \<and> (\<forall>b\<in>set (highlightBG (renderer core') @ highlightOBJ (renderer core')). \<not> b)))"
proof -
  let ?s' = "s\<lparr>m_active := (if layer_id (m_queue s ! i) = m_active s then LayerId_default
                               else layer_id (m_queue s ! i)),
                 m_glowFrame := 0\<rparr>"
  have r: "selectLayer coord s = Inr ?s'"
    using assms by (simp add: selectLayer_def)
  have "\<forall>core. \<exists>core'. injectGBA ?s' core = Inr core'
              \<and> (\<forall>b\<in>set (highlightBG (renderer core') @ highlightOBJ (renderer core')). \<not> b)"
    if "layer_id (m_queue s ! i) = m_active s"
  proof -
    have "type (m_active ?s') = NONE"
      using that by (simp add: LayerId_default_def LayerId_of_def)
    then show ?thesis
      using no_highlight_without_active by blast
  qed
  then show ?thesis
    using r by (intro exI [of _ ?s']) auto
qed

theorem selectLayer_toggles_active_witness:
  "(\<exists>s'. selectLayer (2, 3) sampleView = Inr s' \<and> m_glowFrame s' = 0
       \<and> m_active sampleView = \<lparr>type = BACKGROUND, index = 0\<rparr>
       \<and> m_active s' = LayerId_default
       \<and> (\<exists>core'. injectGBA s' sampleCore = Inr core'
              \<and> \<not> highlightBG (renderer core') ! 0))"
proof -
  have a: "layer_id (m_queue sampleView ! 1) = m_active sampleView"
    "m_active sampleView = \<lparr>type = BACKGROUND, index = 0\<rparr>"
    by (simp_all add: sampleView_def sampleQueue_def sampleBg0_def)
  obtain s' where s: "selectLayer (2, 3) sampleView = Inr s'" "m_glowFrame s' = 0"
    "m_active s' = LayerId_default"
    and h: "\<forall>core. \<exists>core'. injectGBA s' core = Inr core'
              \<and> (\<forall>b\<in>set (highlightBG (renderer core') @ highlightOBJ (renderer core')). \<not> b)"
    using selectLayer_toggles_active [OF sample_lookup] a by blast
  obtain core' where c: "injectGBA s' sampleCore = Inr core'"
    and n: "\<forall>b\<in>set (highlightBG (renderer core') @ highlightOBJ (renderer core')). \<not> b"
    using h by blast
  have "length (highlightBG (renderer core')) = 4"
    using c by (auto simp: injectGBA_eq split: if_splits)
  then have "highlightBG (renderer core') ! 0 \<in> set (highlightBG (renderer core'))"
    by simp
  then have "\<not> highlightBG (renderer core') ! 0"
    using n by auto
  then show ?thesis
    using s a c by blast
qed

lemma layer_ids_toggle:
  "i < length q \<Longrightarrow> map layer_id (q[i := (q ! i)\<lparr>enabled := b\<rparr>]) = map layer_id q"
  by (simp add: list_eq_iff_nth_eq nth_list_update)

lemma outOfBounds_toggle:
  assumes "i < length q"
  shows "outOfBounds a (q[i := (q ! i)\<lparr>enabled := b\<rparr>]) = outOfBounds a q"
proof -
  have "layer_id ` set (q[i := (q ! i)\<lparr>enabled := b\<rparr>]) = layer_id ` set q"
    using layer_ids_toggle [OF assms, of b] by (metis set_map)
  then show ?thesis
    by (simp add: outOfBounds_def)
qed

lemma queue_itemChanged_returns:
  assumes "0 \<le> itemData item" and "nat (itemData item) < length (m_queue s)"
    and "m_vl s = None \<or> m_framebuffer s \<noteq> None
             \<and> \<not> (platform ctl = PLATFORM_GBA \<and> outOfBounds (m_active s) (m_queue s))"
  shows "\<exists>s'. queue_itemChanged ctl item s = Inr s'"
  unfolding queue_itemChanged_def Let_def
  using assms by (auto intro!: invalidateQueue_returns simp: outOfBounds_toggle)

text \<open>
  Claim C4.  After the handler of a checkbox toggle has returned, the layer of the
  item is enabled exactly when the item is checked, its id has been removed from the
  disabled set when it is enabled and inserted when it is not, and so its enabled flag
  is the negation of the membership of its id in the disabled set.  When a point hits
  layer \<open>i\<close>, \<^verbatim>\<open>disableLayer\<close> returns with that layer not enabled and its id
  inserted, so the same equation holds for it.
\<close>

theorem toggle_keeps_disabled_set:
  "(queue_itemChanged ctl item s = Inr s' \<longrightarrow>
      enabled (m_queue s' ! nat (itemData item)) = (checkState item = Checked)
    \<and> layer_id (m_queue s' ! nat (itemData item)) = layer_id (m_queue s ! nat (itemData item))
    \<and> m_disabled s' = (if checkState item = Checked
                        then m_disabled s - {layer_id (m_queue s ! nat (itemData item))}
                        else insert (layer_id (m_queue s ! nat (itemData item))) (m_disabled s))
    \<and> enabled (m_queue s' ! nat (itemData item))
        = (layer_id (m_queue s' ! nat (itemData item)) \<notin> m_disabled s'))
   \<and> (lookupLayer (m_queue s) (m_disabled s) coord = Inr (Some i) \<longrightarrow>
        (\<exists>t. disableLayer coord s = Inr t
           \<and> \<not> enabled (m_queue t ! i)
           \<and> layer_id (m_queue t ! i) = layer_id (m_queue s ! i)
           \<and> m_disabled t = insert (layer_id (m_queue s ! i)) (m_disabled s)
           \<and> enabled (m_queue t ! i) = (layer_id (m_queue t ! i) \<notin> m_disabled t)))"
proof (intro conjI impI)
  assume r: "queue_itemChanged ctl item s = Inr s'"
  let ?i = "nat (itemData item)"
  let ?layer = "(m_queue s ! ?i)\<lparr>enabled := (checkState item = Checked)\<rparr>"
  let ?s1 = "s\<lparr>m_queue := (m_queue s)[?i := ?layer],
               m_disabled := (if enabled ?layer then m_disabled s - {layer_id ?layer}
                              else insert (layer_id ?layer) (m_disabled s))\<rparr>"
  have i: "?i < length (m_queue s)" and inv: "invalidateQueue ctl QSize_default ?s1 = Inr s'"
    using r by (auto simp: queue_itemChanged_def Let_def split: if_splits)
  have q: "m_queue s' = (m_queue s)[?i := ?layer]"
    and d: "m_disabled s' = (if checkState item = Checked
                        then m_disabled s - {layer_id (m_queue s ! ?i)}
                        else insert (layer_id (m_queue s ! ?i)) (m_disabled s))"
    using invalidateQueue_keeps(1,2) [OF inv] by simp_all
  show "enabled (m_queue s' ! ?i) = (checkState item = Checked)"
    using i by (simp add: q)
  show "layer_id (m_queue s' ! ?i) = layer_id (m_queue s ! ?i)"
    using i by (simp add: q)
  show "m_disabled s' = (if checkState item = Checked
                        then m_disabled s - {layer_id (m_queue s ! ?i)}
                        else insert (layer_id (m_queue s ! ?i)) (m_disabled s))"
    by (rule d)
  show "enabled (m_queue s' ! ?i) = (layer_id (m_queue s' ! ?i) \<notin> m_disabled s')"
    using i by (simp add: q d)
next
  assume l: "lookupLayer (m_queue s) (m_disabled s) coord = Inr (Some i)"
  then have i: "i < length (m_queue s)"
    by (simp add: lookupLayer_Some)
  let ?t = "s\<lparr>m_queue := (m_queue s)[i := (m_queue s ! i)\<lparr>enabled := False\<rparr>],
              m_disabled := insert (layer_id (m_queue s ! i)) (m_disabled s)\<rparr>"
  have "disableLayer coord s = Inr ?t"
    using l by (simp add: disableLayer_def)
  then show "\<exists>t. disableLayer coord s = Inr t
           \<and> \<not> enabled (m_queue t ! i)
           \<and> layer_id (m_queue t ! i) = layer_id (m_queue s ! i)
           \<and> m_disabled t = insert (layer_id (m_queue s ! i)) (m_disabled s)
           \<and> enabled (m_queue t ! i) = (layer_id (m_queue t ! i) \<notin> m_disabled t)"
    using i by (intro exI [of _ ?t]) simp
qed

theorem toggle_keeps_disabled_set_witness:
  "(\<exists>s'. queue_itemChanged (sampleController PLATFORM_GBA) (sampleItem Unchecked) sampleView = Inr s'
      \<and> \<not> enabled (m_queue s' ! 1)
      \<and> layer_id (m_queue s' ! 1) = \<lparr>type = BACKGROUND, index = 0\<rparr>
      \<and> m_disabled s' = {\<lparr>type = BACKGROUND, index = 0\<rparr>, \<lparr>type = SPRITE, index = 3\<rparr>})
   \<and> (\<exists>t. disableLayer (2, 3) sampleView = Inr t
      \<and> \<not> enabled (m_queue t ! 1)
      \<and> m_disabled t = {\<lparr>type = BACKGROUND, index = 0\<rparr>, \<lparr>type = SPRITE, index = 3\<rparr>})"
proof -
  let ?ctl = "sampleController PLATFORM_GBA"
  have i: "itemData (sampleItem Unchecked) = 1" "checkState (sampleItem Unchecked) = Unchecked"
    by (simp_all add: sampleItem_def)
  have l: "layer_id (m_queue sampleView ! 1) = \<lparr>type = BACKGROUND, index = 0\<rparr>"
    "m_disabled sampleView = {\<lparr>type = SPRITE, index = 3\<rparr>}"
    by (simp_all add: sampleView_def sampleQueue_def sampleBg0_def)
  have "\<exists>s'. queue_itemChanged ?ctl (sampleItem Unchecked) sampleView = Inr s'"
    by (rule queue_itemChanged_returns)
       (simp_all add: sampleItem_def sampleView_def sampleQueue_def outOfBounds_def)
  then obtain s' where r: "queue_itemChanged ?ctl (sampleItem Unchecked) sampleView = Inr s'"
    by blast
  have a: "\<not> enabled (m_queue s' ! 1)
      \<and> layer_id (m_queue s' ! 1) = \<lparr>type = BACKGROUND, index = 0\<rparr>
      \<and> m_disabled s' = {\<lparr>type = BACKGROUND, index = 0\<rparr>, \<lparr>type = SPRITE, index = 3\<rparr>}"
    using toggle_keeps_disabled_set [of ?ctl "sampleItem Unchecked" sampleView s' "(2, 3)" 1] r i l
    by simp
  have b: "\<exists>t. disableLayer (2, 3) sampleView = Inr t
      \<and> \<not> enabled (m_queue t ! 1)
      \<and> m_disabled t = {\<lparr>type = BACKGROUND, index = 0\<rparr>, \<lparr>type = SPRITE, index = 3\<rparr>}"
    using toggle_keeps_disabled_set [of ?ctl "sampleItem Unchecked" sampleView s' "(2, 3)" 1]
      sample_lookup l
    by auto
  show ?thesis
    using r a b by blast
qed

section \<open>The round trip of a toggle\<close>

lemma replayed_m_dims [simp]: "replayed p (s\<lparr>m_dims := d\<rparr>) core = replayed p s core"
  by (simp add: replayed_def)

lemma invalidateQueue_with_core:
  assumes "m_vl s = Some core" and "m_framebuffer s = Some old"
    and "\<not> (platform ctl = PLATFORM_GBA \<and> outOfBounds (m_active s) (m_queue s))"
  shows "invalidateQueue ctl dims s =
     Inr (s\<lparr>m_dims := (if QSize_isValid dims then dims else m_dims s),
            m_vl := Some (replayed (platform ctl) s core),
            m_framebuffer := Some (runFrame (replayed (platform ctl) s core)),
            ui_queue := map (\<lambda>i. queueItem (m_active s) i (m_queue s ! i))
                          [0 ..< length (m_queue s)],
            m_composited := (Some (runFrame (replayed (platform ctl) s core)),
                             QSize_times (if QSize_isValid dims then dims else m_dims s)
                               (ui_magnification s)),
            ui_compositedView := (Some (runFrame (replayed (platform ctl) s core)),
                             QSize_times (if QSize_isValid dims then dims else m_dims s)
                               (ui_magnification s))\<rparr>)"
  using assms
  by (auto simp: invalidateQueue_def replayFrame_eq syncList_def composite_def Let_def)

lemma invalidateQueue_core_ok:
  assumes "invalidateQueue ctl dims s = Inr s'" and "m_vl s \<noteq> None"
  shows "\<exists>core old. m_vl s = Some core \<and> m_framebuffer s = Some old
           \<and> \<not> (platform ctl = PLATFORM_GBA \<and> outOfBounds (m_active s) (m_queue s))"
  using assms
  by (auto simp: invalidateQueue_def replayFrame_eq split: option.splits if_splits sum.splits)

lemma invalidateQueue_default_with_core:
  assumes "m_vl s = Some core" and "m_framebuffer s = Some old"
    and "\<not> (platform ctl = PLATFORM_GBA \<and> outOfBounds (m_active s) (m_queue s))"
  shows "invalidateQueue ctl QSize_default s =
     Inr (s\<lparr>m_vl := Some (replayed (platform ctl) s core),
            m_framebuffer := Some (runFrame (replayed (platform ctl) s core)),
            ui_queue := map (\<lambda>i. queueItem (m_active s) i (m_queue s ! i))
                          [0 ..< length (m_queue s)],
            m_composited := (Some (runFrame (replayed (platform ctl) s core)),
                             QSize_times (m_dims s) (ui_magnification s)),
            ui_compositedView := (Some (runFrame (replayed (platform ctl) s core)),
                             QSize_times (m_dims s) (ui_magnification s))\<rparr>)"
  using invalidateQueue_with_core [OF assms, of QSize_default]
  by (simp add: QSize_isValid_def QSize_default_def)

lemma replayed_cong:
  assumes "m_queue s = m_queue t" and "m_active s = m_active t"
    and "m_glowFrame s = m_glowFrame t" and "ui_disableScanline s = ui_disableScanline t"
    and "ui_highlightedText s = ui_highlightedText t"
  shows "replayed p s core = replayed p t core"
  using assms by (simp add: replayed_def)

lemma replayed_replayed: "replayed p s (replayed p t core) = replayed p s core"
  by (simp add: replayed_def)

lemma FrameView_unchanged:
  assumes "m_vl s = v" and "m_framebuffer s = f" and "ui_queue s = u"
    and "m_composited s = c" and "ui_compositedView s = w"
  shows "s\<lparr>m_vl := v, m_framebuffer := f, ui_queue := u, m_composited := c,
           ui_compositedView := w\<rparr> = s"
  using assms by (cases s) auto

text \<open>A state as a re-render with a replay core leaves it.\<close>

lemma invalidateQueue_rendered:
  assumes "invalidateQueue ctl dims s0 = Inr s" and "m_vl s0 \<noteq> None"
  shows "\<exists>core. m_vl s = Some core \<and> replayed (platform ctl) s core = core
           \<and> m_framebuffer s = Some (runFrame core)
           \<and> ui_queue s = map (\<lambda>i. queueItem (m_active s) i (m_queue s ! i))
                              [0 ..< length (m_queue s)]
           \<and> m_composited s = (Some (runFrame core), QSize_times (m_dims s) (ui_magnification s))
           \<and> ui_compositedView s = m_composited s
           \<and> \<not> (platform ctl = PLATFORM_GBA \<and> outOfBounds (m_active s) (m_queue s))"
proof -
  obtain core0 old where v0: "m_vl s0 = Some core0" and fb0: "m_framebuffer s0 = Some old"
    and ok0: "\<not> (platform ctl = PLATFORM_GBA \<and> outOfBounds (m_active s0) (m_queue s0))"
    using invalidateQueue_core_ok [OF assms] by blast
  note k = invalidateQueue_keeps [OF assms(1)]
  let ?c = "replayed (platform ctl) s0 core0"
  have s: "s = s0\<lparr>m_dims := (if QSize_isValid dims then dims else m_dims s0),
            m_vl := Some ?c,
            m_framebuffer := Some (runFrame ?c),
            ui_queue := map (\<lambda>i. queueItem (m_active s0) i (m_queue s0 ! i))
                          [0 ..< length (m_queue s0)],
            m_composited := (Some (runFrame ?c),
                             QSize_times (if QSize_isValid dims then dims else m_dims s0)
                               (ui_magnification s0)),
            ui_compositedView := (Some (runFrame ?c),
                             QSize_times (if QSize_isValid dims then dims else m_dims s0)
                               (ui_magnification s0))\<rparr>"
    using assms(1) invalidateQueue_with_core [OF v0 fb0 ok0, of dims] by simp
  have c: "replayed (platform ctl) s ?c = ?c"
    using replayed_cong [of s s0 "platform ctl" core0] k
    by (simp add: replayed_replayed)
  have "m_vl s = Some ?c" "m_framebuffer s = Some (runFrame ?c)"
    "ui_queue s = map (\<lambda>i. queueItem (m_active s0) i (m_queue s0 ! i)) [0 ..< length (m_queue s0)]"
    "m_composited s = (Some (runFrame ?c),
         QSize_times (if QSize_isValid dims then dims else m_dims s0) (ui_magnification s0))"
    "ui_compositedView s = (Some (runFrame ?c),
         QSize_times (if QSize_isValid dims then dims else m_dims s0) (ui_magnification s0))"
    by (subst s, simp)+
  then show ?thesis
    using c ok0 k by auto
qed

text \<open>
  Claim C6, as the code has it.  Let \<open>s\<close> be the state that a re-render with a loaded
  replay core returns, so that its composite is the one of the state itself, and let
  the layer of the item be enabled and its id not in the disabled set.  Then the
  handler of the toggle to unchecked returns, the handler of the toggle back to checked,
  run next, returns, and the state after both is \<open>s\<close> again: the queue with its enabled
  flags, the disabled set, the replay framebuffer and the composite are what they
  were.  The live side may differ between the calls as long as the platform is the
  same; \<open>s\<close> holds the same replay core throughout (no rotation).  The frame is the
  function \<open>replay\<close> of what was injected since the reset, which is the spec's account
  of the replay core.
\<close>

theorem toggle_round_trip:
  assumes pre: "invalidateQueue ctl0 dims s0 = Inr s"
    and core: "m_vl s0 \<noteq> None"
    and idx: "0 \<le> itemData item" "nat (itemData item) < length (m_queue s)"
    and en: "enabled (m_queue s ! nat (itemData item))"
            "layer_id (m_queue s ! nat (itemData item)) \<notin> m_disabled s"
    and p: "platform ctl1 = platform ctl0" "platform ctl2 = platform ctl0"
  shows "\<exists>s1 s2. queue_itemChanged ctl1 (item\<lparr>checkState := Unchecked\<rparr>) s = Inr s1
       \<and> queue_itemChanged ctl2 (item\<lparr>checkState := Checked\<rparr>) s1 = Inr s2
       \<and> m_queue s2 = m_queue s \<and> m_disabled s2 = m_disabled s
       \<and> m_framebuffer s2 = m_framebuffer s \<and> m_composited s2 = m_composited s
       \<and> s2 = s"
proof -
  let ?i = "nat (itemData item)"
  let ?p = "platform ctl0"
  obtain c where vs: "m_vl s = Some c" and fixc: "replayed ?p s c = c"
    and fbs: "m_framebuffer s = Some (runFrame c)"
    and uqs: "ui_queue s = map (\<lambda>i. queueItem (m_active s) i (m_queue s ! i))
                              [0 ..< length (m_queue s)]"
    and mcs: "m_composited s = (Some (runFrame c), QSize_times (m_dims s) (ui_magnification s))"
    and cvs: "ui_compositedView s = m_composited s"
    and oks: "\<not> (?p = PLATFORM_GBA \<and> outOfBounds (m_active s) (m_queue s))"
    using invalidateQueue_rendered [OF pre core] by blast
  let ?off = "(m_queue s ! ?i)\<lparr>enabled := False\<rparr>"
  define t1 where "t1 = s\<lparr>m_queue := (m_queue s)[?i := ?off],
               m_disabled := insert (layer_id (m_queue s ! ?i)) (m_disabled s)\<rparr>"
  have t1: "m_vl t1 = Some c" "m_framebuffer t1 = Some (runFrame c)" "m_active t1 = m_active s"
    "m_queue t1 = (m_queue s)[?i := ?off]"
    "m_disabled t1 = insert (layer_id (m_queue s ! ?i)) (m_disabled s)"
    using vs fbs by (simp_all add: t1_def)
  have ok1: "\<not> (platform ctl1 = PLATFORM_GBA \<and> outOfBounds (m_active t1) (m_queue t1))"
    using oks idx(2) p(1) by (simp add: t1 outOfBounds_toggle)
  have c1: "queue_itemChanged ctl1 (item\<lparr>checkState := Unchecked\<rparr>) s
              = invalidateQueue ctl1 QSize_default t1"
    using idx by (simp add: queue_itemChanged_def Let_def t1_def)
  define c' where "c' = replayed ?p t1 c"
  define s1 where "s1 = t1\<lparr>m_vl := Some c',
            m_framebuffer := Some (runFrame c'),
            ui_queue := map (\<lambda>i. queueItem (m_active t1) i (m_queue t1 ! i))
                          [0 ..< length (m_queue t1)],
            m_composited := (Some (runFrame c'), QSize_times (m_dims t1) (ui_magnification t1)),
            ui_compositedView := (Some (runFrame c'),
                                  QSize_times (m_dims t1) (ui_magnification t1))\<rparr>"
  have r1: "queue_itemChanged ctl1 (item\<lparr>checkState := Unchecked\<rparr>) s = Inr s1"
    unfolding c1 s1_def c'_def
    using invalidateQueue_default_with_core [OF t1(1,2) ok1] p(1) by simp
  have q1: "m_queue s1 = (m_queue s)[?i := ?off]"
    and d1: "m_disabled s1 = insert (layer_id (m_queue s ! ?i)) (m_disabled s)"
    by (simp_all add: s1_def t1)
  define t2 where "t2 = s1\<lparr>m_queue := m_queue s, m_disabled := m_disabled s\<rparr>"
  have t2s: "t2 = s\<lparr>m_vl := Some c',
            m_framebuffer := Some (runFrame c'),
            ui_queue := map (\<lambda>i. queueItem (m_active t1) i (m_queue t1 ! i))
                          [0 ..< length (m_queue t1)],
            m_composited := (Some (runFrame c'), QSize_times (m_dims t1) (ui_magnification t1)),
            ui_compositedView := (Some (runFrame c'),
                                  QSize_times (m_dims t1) (ui_magnification t1))\<rparr>"
    by (simp add: t2_def s1_def t1_def)
  have t2: "m_vl t2 = Some c'" "m_framebuffer t2 = Some (runFrame c')"
    "m_active t2 = m_active s" "m_queue t2 = m_queue s" "m_glowFrame t2 = m_glowFrame s"
    "ui_disableScanline t2 = ui_disableScanline s" "ui_highlightedText t2 = ui_highlightedText s"
    "m_dims t2 = m_dims s" "ui_magnification t2 = ui_magnification s"
    by (simp_all add: t2s)
  have qb: "(m_queue s)[?i := (m_queue s ! ?i)\<lparr>enabled := True\<rparr>] = m_queue s"
    using idx(2) en(1) by (simp add: list_eq_iff_nth_eq nth_list_update)
  have db: "m_disabled s - {layer_id (m_queue s ! ?i)} = m_disabled s"
    using en(2) by simp
  have c2: "queue_itemChanged ctl2 (item\<lparr>checkState := Checked\<rparr>) s1
              = invalidateQueue ctl2 QSize_default t2"
    using idx(1) idx(2)
    by (simp add: queue_itemChanged_def Let_def t2_def q1 d1 qb db)
  have ok2: "\<not> (platform ctl2 = PLATFORM_GBA \<and> outOfBounds (m_active t2) (m_queue t2))"
    using oks p(2) by (simp add: t2)
  have same_core: "replayed ?p t2 c' = c"
    using replayed_cong [of t2 s ?p c'] fixc by (simp add: t2 c'_def replayed_replayed)
  have "invalidateQueue ctl2 QSize_default t2
          = Inr (t2\<lparr>m_vl := Some c, m_framebuffer := Some (runFrame c),
                    ui_queue := ui_queue s, m_composited := m_composited s,
                    ui_compositedView := ui_compositedView s\<rparr>)"
    using invalidateQueue_default_with_core [OF t2(1,2) ok2] p(2)
    by (simp add: same_core t2 uqs mcs cvs)
  also have "t2\<lparr>m_vl := Some c, m_framebuffer := Some (runFrame c),
                    ui_queue := ui_queue s, m_composited := m_composited s,
                    ui_compositedView := ui_compositedView s\<rparr>
        = s\<lparr>m_vl := Some c, m_framebuffer := Some (runFrame c),
                    ui_queue := ui_queue s, m_composited := m_composited s,
                    ui_compositedView := ui_compositedView s\<rparr>"
    by (simp add: t2s)
  also have "\<dots> = s"
    using FrameView_unchanged [OF vs fbs refl refl refl] .
  finally have r2: "queue_itemChanged ctl2 (item\<lparr>checkState := Checked\<rparr>) s1 = Inr s"
    by (simp add: c2)
  show ?thesis
    using r1 r2 by blast
qed

theorem toggle_round_trip_witness:
  "\<exists>s s1. invalidateQueue (sampleController PLATFORM_GBA) QSize_default
              (sampleView\<lparr>m_disabled := {}, m_queue := [sampleBg0, sampleBackdrop]\<rparr>) = Inr s
     \<and> queue_itemChanged (sampleController PLATFORM_GBA) (sampleItem Unchecked\<lparr>itemData := 0\<rparr>) s = Inr s1
     \<and> m_disabled s1 = {\<lparr>type = BACKGROUND, index = 0\<rparr>}
     \<and> queue_itemChanged (sampleController PLATFORM_GBA) (sampleItem Checked\<lparr>itemData := 0\<rparr>) s1 = Inr s
     \<and> m_disabled s = {}"
proof -
  let ?ctl = "sampleController PLATFORM_GBA"
  let ?s0 = "sampleView\<lparr>m_disabled := {}, m_queue := [sampleBg0, sampleBackdrop]\<rparr>"
  let ?item = "sampleItem Checked\<lparr>itemData := 0\<rparr>"
  have ok: "m_vl ?s0 = None \<or> m_framebuffer ?s0 \<noteq> None
             \<and> \<not> (platform ?ctl = PLATFORM_GBA \<and> outOfBounds (m_active ?s0) (m_queue ?s0))"
    by (simp add: sampleView_def outOfBounds_def sampleBg0_def)
  obtain s where pre: "invalidateQueue ?ctl QSize_default ?s0 = Inr s"
    using invalidateQueue_returns [OF ok] by blast
  note k = invalidateQueue_keeps [OF pre]
  have core: "m_vl ?s0 \<noteq> None"
    by (simp add: sampleView_def)
  have idx: "0 \<le> itemData ?item" "nat (itemData ?item) < length (m_queue s)"
    by (simp_all add: k)
  have en: "enabled (m_queue s ! nat (itemData ?item))"
    "layer_id (m_queue s ! nat (itemData ?item)) \<notin> m_disabled s"
    by (simp_all add: k sampleBg0_def)
  have it: "?item\<lparr>checkState := Unchecked\<rparr> = sampleItem Unchecked\<lparr>itemData := 0\<rparr>"
    "?item\<lparr>checkState := Checked\<rparr> = ?item"
    by (simp_all add: sampleItem_def)
  obtain s1 s2 where
    r1: "queue_itemChanged ?ctl (sampleItem Unchecked\<lparr>itemData := 0\<rparr>) s = Inr s1"
    and r2: "queue_itemChanged ?ctl ?item s1 = Inr s2" and e: "s2 = s"
    using toggle_round_trip [OF pre core idx en refl refl] unfolding it by blast
  have "m_disabled s1 = {\<lparr>type = BACKGROUND, index = 0\<rparr>}"
    using r1 invalidateQueue_keeps(2) [of ?ctl QSize_default _ s1]
    by (auto simp: queue_itemChanged_def Let_def k sampleItem_def sampleBg0_def split: if_splits)
  moreover have "m_disabled s = {}"
    by (simp add: k)
  ultimately show ?thesis
    using pre r1 r2 e by blast
qed

lemma invalidateQueue_GBA:
  assumes "invalidateQueue ctl dims s = Inr s'" and "m_vl s = Some core"
    and "platform ctl = PLATFORM_GBA"
  shows "m_vl s' = Some (replayed PLATFORM_GBA s core)"
    and "m_framebuffer s' = Some (runFrame (replayed PLATFORM_GBA s core))"
    and "m_composited s' = (Some (runFrame (replayed PLATFORM_GBA s core)),
                            QSize_times (m_dims s') (ui_magnification s))"
proof -
  obtain core' old where "m_vl s = Some core'" and fb: "m_framebuffer s = Some old"
    and ok: "\<not> (platform ctl = PLATFORM_GBA \<and> outOfBounds (m_active s) (m_queue s))"
    using invalidateQueue_core_ok [OF assms(1)] assms(2) by auto
  have s': "s' = s\<lparr>m_dims := (if QSize_isValid dims then dims else m_dims s),
            m_vl := Some (replayed (platform ctl) s core),
            m_framebuffer := Some (runFrame (replayed (platform ctl) s core)),
            ui_queue := map (\<lambda>i. queueItem (m_active s) i (m_queue s ! i))
                          [0 ..< length (m_queue s)],
            m_composited := (Some (runFrame (replayed (platform ctl) s core)),
                             QSize_times (if QSize_isValid dims then dims else m_dims s)
                               (ui_magnification s)),
            ui_compositedView := (Some (runFrame (replayed (platform ctl) s core)),
                             QSize_times (if QSize_isValid dims then dims else m_dims s)
                               (ui_magnification s))\<rparr>"
    using assms(1) invalidateQueue_with_core [OF assms(2) fb ok, of dims] by simp
  show "m_vl s' = Some (replayed PLATFORM_GBA s core)"
    "m_framebuffer s' = Some (runFrame (replayed PLATFORM_GBA s core))"
    "m_composited s' = (Some (runFrame (replayed PLATFORM_GBA s core)),
                            QSize_times (m_dims s') (ui_magnification s))"
    by (subst s', simp add: assms(3))+
qed

lemma returns_projr: "\<exists>s'. r = Inr s' \<Longrightarrow> r = Inr (projr r)"
  by auto

lemma sample_frame:
  assumes "replay core = replay sampleCore" and "m_queue s = [l, sampleBackdrop]"
    and "layer_id l = \<lparr>type = BACKGROUND, index = 0\<rparr>"
  shows "runFrame (replayed PLATFORM_GBA s core)
           = (if m_active s = \<lparr>type = BACKGROUND, index = 0\<rparr> then 4 else 3)"
  using assms
  by (auto simp: runFrame_def replayed_def sampleCore_def layerCalls_def highlightIn_def
        sampleBackdrop_def LayerId_of_def eval_nat_numeral)

lemma replay_replayed [simp]: "replay (replayed p s core) = replay core"
  by (simp add: replayed_def)

text \<open>
  The claim itself has the round trip restore the composite from every state: there it
  fails.  \<^verbatim>\<open>selectLayer\<close> does not re-render (lines 113 to 124).  After a re-render
  with background 0 active and a click that deselects it, the composite still is the
  frame with the highlight; unchecking and re-checking the background restores the
  queue and the disabled set, and renders the frame without the highlight: in the
  replay core the highlight flag of background 0 was set and is now clear, and the
  sample core's frame (the number of injected calls plus that of the set flags) was 4
  and is now 3.
\<close>

theorem toggle_round_trip_stale_composite:
  "invalidateQueue (sampleController PLATFORM_GBA) QSize_default sampleView2 = Inr sampleRendered
   \<and> selectLayer (2, 3) sampleRendered = Inr sampleDeselected
   \<and> queue_itemChanged (sampleController PLATFORM_GBA) (sampleItem Unchecked\<lparr>itemData := 0\<rparr>)
        sampleDeselected = Inr sampleOff
   \<and> queue_itemChanged (sampleController PLATFORM_GBA) (sampleItem Checked\<lparr>itemData := 0\<rparr>)
        sampleOff = Inr sampleOn
   \<and> m_queue sampleOn = m_queue sampleDeselected
   \<and> m_disabled sampleOn = m_disabled sampleDeselected
   \<and> m_composited sampleDeselected = (Some 4, (480, 320))
   \<and> m_composited sampleOn = (Some 3, (480, 320))
   \<and> replayHighlightBG sampleDeselected 0 = Some True
   \<and> replayHighlightBG sampleOn 0 = Some False"
proof -
  let ?ctl = "sampleController PLATFORM_GBA"
  let ?bg = "\<lparr>type = BACKGROUND, index = 0\<rparr>"
  have p: "platform ?ctl = PLATFORM_GBA"
    by (simp add: sampleController_def)
  have v0: "m_queue sampleView2 = [sampleBg0, sampleBackdrop]" "m_disabled sampleView2 = {}"
    "m_active sampleView2 = ?bg" "m_vl sampleView2 = Some sampleCore"
    "m_framebuffer sampleView2 = Some 0" "m_dims sampleView2 = (240, 160)"
    "ui_magnification sampleView2 = 2"
    by (simp_all add: sampleView2_def sampleView_def)
  have id0: "layer_id sampleBg0 = ?bg"
    by (simp add: sampleBg0_def)
  have "\<exists>s'. invalidateQueue ?ctl QSize_default sampleView2 = Inr s'"
    by (rule invalidateQueue_returns) (simp add: v0 outOfBounds_def id0)
  then have r0: "invalidateQueue ?ctl QSize_default sampleView2 = Inr sampleRendered"
    unfolding sampleRendered_def by (rule returns_projr)
  note k0 = invalidateQueue_keeps(1-8) [OF r0]
  note g0 = invalidateQueue_GBA [OF r0 v0(4) p]
  have d0: "m_dims sampleRendered = (240, 160)"
    using invalidateQueue_keeps(9) [OF r0] by (simp add: v0 QSize_isValid_def QSize_default_def)
  have c0: "m_composited sampleRendered = (Some 4, (480, 320))"
    using g0(3) sample_frame [of sampleCore sampleView2 sampleBg0]
    by (simp add: v0 id0 d0 QSize_times_def)
  have l: "lookupLayer (m_queue sampleRendered) (m_disabled sampleRendered) (2, 3) = Inr (Some 0)"
    by (simp add: k0 v0 sample_hits) (simp add: sampleBg0_def)
  have sel: "selectLayer (2, 3) sampleRendered
               = Inr (sampleRendered\<lparr>m_active := LayerId_default, m_glowFrame := 0\<rparr>)"
    unfolding selectLayer_def l by (simp add: k0 v0 id0)
  have s1: "sampleDeselected = sampleRendered\<lparr>m_active := LayerId_default, m_glowFrame := 0\<rparr>"
    by (simp add: sampleDeselected_def sel)
  have r1: "selectLayer (2, 3) sampleRendered = Inr sampleDeselected"
    by (simp add: sel s1)
  have v1: "m_queue sampleDeselected = [sampleBg0, sampleBackdrop]"
    "m_disabled sampleDeselected = {}" "m_active sampleDeselected = LayerId_default"
    "m_vl sampleDeselected = Some (replayed PLATFORM_GBA sampleView2 sampleCore)"
    "m_framebuffer sampleDeselected = Some (runFrame (replayed PLATFORM_GBA sampleView2 sampleCore))"
    "m_dims sampleDeselected = (240, 160)" "ui_magnification sampleDeselected = 2"
    "m_composited sampleDeselected = (Some 4, (480, 320))"
    by (simp_all add: s1 k0 v0 g0(1,2) d0 c0)
  have na: "LayerId_default \<noteq> ?bg"
    by (simp add: LayerId_default_def LayerId_of_def)
  let ?off = "sampleItem Unchecked\<lparr>itemData := 0\<rparr>"
  let ?on = "sampleItem Checked\<lparr>itemData := 0\<rparr>"
  have "\<exists>s'. queue_itemChanged ?ctl ?off sampleDeselected = Inr s'"
    by (rule queue_itemChanged_returns)
       (simp_all add: v1 sampleItem_def outOfBounds_def LayerId_default_def LayerId_of_def)
  then have r2: "queue_itemChanged ?ctl ?off sampleDeselected = Inr sampleOff"
    unfolding sampleOff_def by (rule returns_projr)
  let ?t2 = "sampleDeselected\<lparr>m_queue := [sampleBg0\<lparr>enabled := False\<rparr>, sampleBackdrop],
                              m_disabled := {?bg}\<rparr>"
  have i2: "invalidateQueue ?ctl QSize_default ?t2 = Inr sampleOff"
    using r2 by (simp add: queue_itemChanged_def Let_def v1 sampleItem_def id0)
  note k2 = invalidateQueue_keeps [OF i2]
  have v2: "m_queue sampleOff = [sampleBg0\<lparr>enabled := False\<rparr>, sampleBackdrop]"
    "m_disabled sampleOff = {?bg}" "m_active sampleOff = LayerId_default"
    "m_dims sampleOff = (240, 160)" "ui_magnification sampleOff = 2"
    using k2 by (simp_all add: v1 QSize_isValid_def QSize_default_def)
  have m2: "m_vl ?t2 = Some (replayed PLATFORM_GBA sampleView2 sampleCore)"
    by (simp add: v1)
  note g2 = invalidateQueue_GBA [OF i2 m2 p]
  have "\<exists>s'. queue_itemChanged ?ctl ?on sampleOff = Inr s'"
    by (rule queue_itemChanged_returns)
       (simp_all add: v2 g2 sampleItem_def outOfBounds_def LayerId_default_def LayerId_of_def)
  then have r3: "queue_itemChanged ?ctl ?on sampleOff = Inr sampleOn"
    unfolding sampleOn_def by (rule returns_projr)
  let ?t3 = "sampleOff\<lparr>m_queue := [sampleBg0, sampleBackdrop], m_disabled := {}\<rparr>"
  have e: "sampleBg0\<lparr>enabled := True\<rparr> = sampleBg0"
    by (simp add: sampleBg0_def)
  have i3: "invalidateQueue ?ctl QSize_default ?t3 = Inr sampleOn"
    using r3 by (simp add: queue_itemChanged_def Let_def v2 sampleItem_def id0 e)
  note k3 = invalidateQueue_keeps [OF i3]
  have v3: "m_queue sampleOn = [sampleBg0, sampleBackdrop]" "m_disabled sampleOn = {}"
    "m_dims sampleOn = (240, 160)"
    using k3 by (simp_all add: v2 QSize_isValid_def QSize_default_def)
  let ?c2 = "replayed PLATFORM_GBA ?t2 (replayed PLATFORM_GBA sampleView2 sampleCore)"
  have m3: "m_vl ?t3 = Some ?c2"
    using g2(1) by simp
  note g3 = invalidateQueue_GBA [OF i3 m3 p]
  have c3: "m_composited sampleOn = (Some 3, (480, 320))"
    using g3(3) sample_frame [of ?c2 ?t3 sampleBg0] na
    by (simp add: v2 v3 id0 QSize_times_def)
  have h1: "replayHighlightBG sampleDeselected 0 = Some True"
    by (simp add: replayHighlightBG_def v1(4) replayed_def highlightIn_def v0 id0
          eval_nat_numeral)
  have h3: "replayHighlightBG sampleOn 0 = Some False"
    by (simp add: replayHighlightBG_def g3(1) replayed_def highlightIn_def v2
          LayerId_default_def LayerId_of_def eval_nat_numeral)
  show ?thesis
    using r0 r1 r2 r3 v1 v3 c3 h1 h3 by simp
qed

section \<open>Re-rendering without a replay core\<close>

text \<open>
  Claim C9.  Without a replay core the replay step of a re-render (reset, injection,
  frame) changes nothing: the re-render returns, there is still no core, and the replay
  framebuffer is what it was.  And whenever a re-render returns with a null replay
  framebuffer, the composite is the raw rendered image (refreshed from the live core
  unless the view is frozen), scaled to the view's size.
\<close>

theorem rerender_without_replay_core:
  "(m_vl s = None \<longrightarrow>
      replayFrame ctl s = Inr s
    \<and> (\<exists>s'. invalidateQueue ctl dims s = Inr s' \<and> m_vl s' = None
             \<and> m_framebuffer s' = m_framebuffer s))
   \<and> (invalidateQueue ctl dims s = Inr s' \<and> m_framebuffer s' = None \<longrightarrow>
        m_rendered s' = (if ui_freeze s = Checked then m_rendered s else Some (getPixels ctl))
      \<and> m_composited s' = (m_rendered s', QSize_times (m_dims s') (ui_magnification s'))
      \<and> ui_compositedView s' = m_composited s')"
proof (intro conjI impI)
  assume n: "m_vl s = None"
  show "replayFrame ctl s = Inr s"
    using n by (simp add: replayFrame_def)
  show "\<exists>s'. invalidateQueue ctl dims s = Inr s' \<and> m_vl s' = None
             \<and> m_framebuffer s' = m_framebuffer s"
    using n by (simp add: invalidateQueue_def replayFrame_def composite_keeps syncList_keeps)
next
  assume a: "invalidateQueue ctl dims s = Inr s' \<and> m_framebuffer s' = None"
  let ?s0 = "if QSize_isValid dims then s\<lparr>m_dims := dims\<rparr> else s"
  obtain s1 where r: "replayFrame ctl ?s0 = Inr s1" and s': "s' = composite ctl (syncList s1)"
    using a by (auto simp: invalidateQueue_def split: sum.splits)
  have fb: "m_framebuffer s1 = None"
    using a by (simp add: s' composite_keeps syncList_keeps)
  have f: "ui_freeze s1 = ui_freeze s" and m: "m_rendered s1 = m_rendered s"
    using replayFrame_keeps(6,7) [OF r] by (simp_all split: if_splits)
  show "m_rendered s' = (if ui_freeze s = Checked then m_rendered s else Some (getPixels ctl))"
    using fb f m by (simp add: s' composite_def syncList_def updateRendered_def Let_def)
  show "m_composited s' = (m_rendered s', QSize_times (m_dims s') (ui_magnification s'))"
    using fb by (simp add: s' composite_def syncList_def updateRendered_def Let_def)
  show "ui_compositedView s' = m_composited s'"
    using fb by (simp add: s' composite_def syncList_def updateRendered_def Let_def)
qed

theorem rerender_without_replay_core_witness:
  "m_vl (sampleView\<lparr>m_vl := None, m_framebuffer := None\<rparr>) = None
   \<and> (\<exists>s'. invalidateQueue (sampleController PLATFORM_GBA) QSize_default
              (sampleView\<lparr>m_vl := None, m_framebuffer := None\<rparr>) = Inr s'
        \<and> m_vl s' = None \<and> m_framebuffer s' = None
        \<and> m_rendered s' = Some 7 \<and> m_composited s' = (Some 7, (480, 320)))"
proof -
  let ?ctl = "sampleController PLATFORM_GBA"
  let ?s = "sampleView\<lparr>m_vl := None, m_framebuffer := None\<rparr>"
  have n: "m_vl ?s = None" "m_framebuffer ?s = None"
    by simp_all
  obtain s' where r: "invalidateQueue ?ctl QSize_default ?s = Inr s'" and v: "m_vl s' = None"
    and f: "m_framebuffer s' = None"
    using rerender_without_replay_core [of ?s ?ctl QSize_default] n by auto
  note k = invalidateQueue_keeps [OF r]
  have "m_rendered s' = Some 7 \<and> m_composited s' = (Some 7, (480, 320))"
    using rerender_without_replay_core [of ?s ?ctl QSize_default s'] r f
    by (simp add: k QSize_isValid_def QSize_default_def)
       (simp add: sampleView_def sampleController_def QSize_times_def)
  then show ?thesis
    using r v f n by blast
qed

section \<open>Decomposition\<close>

text \<open>
  Claim C8.  With the freeze box checked, \<^verbatim>\<open>updateTilesGBA\<close> and \<^verbatim>\<open>updateTilesGB\<close>
  return at once: the state after the call, and with it the layer queue, is the state
  before it.
\<close>

theorem updateTiles_frozen:
  assumes "ui_freeze s = Checked"
  shows "updateTilesGBA hdr ctl s = Inr s \<and> updateTilesGB ctl s = Inr s"
  using assms by (simp add: updateTilesGBA_def updateTilesGB_def)

theorem updateTiles_frozen_witness:
  "ui_freeze (sampleView\<lparr>ui_freeze := Checked\<rparr>) = Checked
   \<and> updateTilesGBA sampleHeaders (sampleController PLATFORM_GBA) (sampleView\<lparr>ui_freeze := Checked\<rparr>)
       = Inr (sampleView\<lparr>ui_freeze := Checked\<rparr>)
   \<and> updateTilesGB (sampleController PLATFORM_GB) (sampleView\<lparr>ui_freeze := Checked\<rparr>)
       = Inr (sampleView\<lparr>ui_freeze := Checked\<rparr>)
   \<and> m_queue (sampleView\<lparr>ui_freeze := Checked\<rparr>) = sampleQueue"
proof -
  have f: "ui_freeze (sampleView\<lparr>ui_freeze := Checked\<rparr>) = Checked"
    by simp
  have q: "m_queue (sampleView\<lparr>ui_freeze := Checked\<rparr>) = sampleQueue"
    by (simp add: sampleView_def)
  show ?thesis
    using updateTiles_frozen [OF f, of sampleHeaders "sampleController PLATFORM_GBA"]
      updateTiles_frozen [OF f, of sampleHeaders "sampleController PLATFORM_GB"] f q
    by simp
qed

text \<open>Every layer that the loops of \<^verbatim>\<open>updateTilesGBA\<close> append is a sprite or a
  background with an index of its highlight array.\<close>

lemma spriteStep_plane:
  assumes "\<forall>l\<in>set q. planeLayer l" and "0 \<le> k \<and> k < 128"
  shows "\<forall>l\<in>set (spriteStep ctl d pr q k). planeLayer l"
  using assms by (simp add: spriteStep_def planeLayer_def Let_def)

lemma bgStep_plane:
  assumes "\<forall>l\<in>set q. planeLayer l" and "0 \<le> k \<and> k < 4"
  shows "\<forall>l\<in>set (bgStep hdr ctl d dispcnt pr q k). planeLayer l"
  using assms by (simp add: bgStep_def planeLayer_def Let_def)

lemma foldl_spriteStep_plane:
  assumes "\<forall>l\<in>set q. planeLayer l" and "\<forall>k\<in>set ks. 0 \<le> k \<and> k < 128"
  shows "\<forall>l\<in>set (foldl (spriteStep ctl d pr) q ks). planeLayer l"
  using assms
proof (induction ks arbitrary: q)
  case Nil
  then show ?case by simp
next
  case (Cons k ks)
  have "\<forall>l\<in>set (spriteStep ctl d pr q k). planeLayer l"
    using Cons.prems by (intro spriteStep_plane) simp_all
  then show ?case
    using Cons.IH Cons.prems(2) by simp
qed

lemma foldl_bgStep_plane:
  assumes "\<forall>l\<in>set q. planeLayer l" and "\<forall>k\<in>set ks. 0 \<le> k \<and> k < 4"
  shows "\<forall>l\<in>set (foldl (bgStep hdr ctl d dispcnt pr) q ks). planeLayer l"
  using assms
proof (induction ks arbitrary: q)
  case Nil
  then show ?case by simp
next
  case (Cons k ks)
  have "\<forall>l\<in>set (bgStep hdr ctl d dispcnt pr q k). planeLayer l"
    using Cons.prems by (intro bgStep_plane) simp_all
  then show ?case
    using Cons.IH Cons.prems(2) by simp
qed

lemma priorityStep_plane:
  assumes "\<forall>l\<in>set q. planeLayer l"
  shows "\<forall>l\<in>set (priorityStep hdr ctl d dispcnt q pr). planeLayer l"
  unfolding priorityStep_def
  by (intro foldl_bgStep_plane foldl_spriteStep_plane assms) auto

lemma foldl_priorityStep_plane:
  assumes "\<forall>l\<in>set q. planeLayer l"
  shows "\<forall>l\<in>set (foldl (priorityStep hdr ctl d dispcnt) q ps). planeLayer l"
  using assms
proof (induction ps arbitrary: q)
  case Nil
  then show ?case by simp
next
  case (Cons pr ps)
  then show ?case
    using priorityStep_plane [of q hdr ctl d dispcnt pr] by simp
qed

lemma planes_no_backdrop:
  assumes "\<forall>l\<in>set q. planeLayer l"
  shows "filter (\<lambda>l. type (layer_id l) = BACKDROP) q = []"
  using assms by (auto simp: filter_empty_conv planeLayer_def)

lemma planes_in_bounds:
  assumes "\<forall>l\<in>set q. planeLayer l"
  shows "\<not> outOfBounds a (q @ [backdropLayer hdr d])"
  using assms
  by (auto simp: outOfBounds_def planeLayer_def backdropLayer_def LayerId_of_def)

text \<open>
  Claim C5, as the code has it.  A pass of \<^verbatim>\<open>updateTilesGBA\<close> with the freeze box not
  checked (and, when a replay core is loaded, with its framebuffer) returns, and the
  queue it has rebuilt is not empty, holds exactly one layer of type BACKDROP, and that
  layer is the last one, with no index, and does not repeat.
\<close>

theorem updateTilesGBA_backdrop_last:
  assumes "ui_freeze s \<noteq> Checked" and "m_vl s = None \<or> m_framebuffer s \<noteq> None"
  shows "\<exists>s'. updateTilesGBA hdr ctl s = Inr s' \<and> m_queue s' \<noteq> []
     \<and> length (filter (\<lambda>l. type (layer_id l) = BACKDROP) (m_queue s')) = 1
     \<and> layer_id (last (m_queue s')) = LayerId_of BACKDROP
     \<and> type (layer_id (last (m_queue s'))) = BACKDROP
     \<and> \<not> repeats (last (m_queue s'))"
proof -
  let ?dispcnt = "io ctl (drop_bit 1 (REG_DISPCNT hdr))"
  let ?planes = "foldl (priorityStep hdr ctl (m_disabled s) ?dispcnt) [] (map int [0 ..< 4])"
  let ?queue = "?planes @ [backdropLayer hdr (m_disabled s)]"
  let ?t = "updateRendered ctl (s\<lparr>m_queue := ?queue, m_gbaDispcnt := ?dispcnt\<rparr>)"
  have planes: "\<forall>l\<in>set ?planes. planeLayer l"
    by (rule foldl_priorityStep_plane) simp
  have t: "m_queue ?t = ?queue" "m_vl ?t = m_vl s" "m_framebuffer ?t = m_framebuffer s"
    by (simp_all add: updateRendered_def)
  have "m_vl ?t = None \<or> m_framebuffer ?t \<noteq> None
          \<and> \<not> (platform ctl = PLATFORM_GBA \<and> outOfBounds (m_active ?t) (m_queue ?t))"
    unfolding t using assms(2) planes_in_bounds [OF planes] by blast
  then obtain s' where
    r: "invalidateQueue ctl (GBA_VIDEO_HORIZONTAL_PIXELS hdr, GBA_VIDEO_VERTICAL_PIXELS hdr) ?t
          = Inr s'"
    using invalidateQueue_returns by blast
  have q: "m_queue s' = ?queue"
    using invalidateQueue_keeps(1) [OF r] t(1) by simp
  have u: "updateTilesGBA hdr ctl s = Inr s'"
    using assms(1) r by (simp add: updateTilesGBA_def Let_def)
  have "length (filter (\<lambda>l. type (layer_id l) = BACKDROP) ?queue) = 1"
    using planes_no_backdrop [OF planes] by (simp add: backdropLayer_def LayerId_of_def)
  moreover have "layer_id (last ?queue) = LayerId_of BACKDROP" "\<not> repeats (last ?queue)"
    by (simp_all add: backdropLayer_def)
  ultimately show ?thesis
    using u q by (auto simp: LayerId_of_def)
qed

theorem updateTilesGBA_backdrop_last_witness:
  "ui_freeze sampleView \<noteq> Checked \<and> m_framebuffer sampleView \<noteq> None
   \<and> (\<exists>s'. updateTilesGBA sampleHeaders (sampleController PLATFORM_GBA) sampleView = Inr s'
         \<and> m_queue s' \<noteq> []
         \<and> length (filter (\<lambda>l. type (layer_id l) = BACKDROP) (m_queue s')) = 1
         \<and> type (layer_id (last (m_queue s'))) = BACKDROP
         \<and> \<not> repeats (last (m_queue s')))"
proof -
  have h: "ui_freeze sampleView \<noteq> Checked" "m_framebuffer sampleView \<noteq> None"
    by (simp_all add: sampleView_def)
  then have "m_vl sampleView = None \<or> m_framebuffer sampleView \<noteq> None"
    by simp
  from updateTilesGBA_backdrop_last [OF h(1) this, of sampleHeaders "sampleController PLATFORM_GBA"]
  show ?thesis
    using h by blast
qed

text \<open>
  The claim itself also speaks of \<^verbatim>\<open>updateTilesGB\<close>: there it fails.  On the sample
  view, which is not frozen, the pass for the other console family returns with the
  empty queue, which has no backdrop layer.
\<close>

theorem updateTilesGB_no_backdrop:
  "\<not> isl (updateTilesGB (sampleController PLATFORM_GB) sampleView)
   \<and> m_queue (projr (updateTilesGB (sampleController PLATFORM_GB) sampleView)) = []
   \<and> ui_freeze sampleView = Unchecked"
proof -
  let ?ctl = "sampleController PLATFORM_GB"
  let ?t = "updateRendered ?ctl (sampleView\<lparr>m_queue := []\<rparr>)"
  have "m_vl ?t = None \<or> m_framebuffer ?t \<noteq> None
          \<and> \<not> (platform ?ctl = PLATFORM_GBA \<and> outOfBounds (m_active ?t) (m_queue ?t))"
    by (simp add: updateRendered_def sampleView_def sampleController_def)
  then obtain s' where r: "invalidateQueue ?ctl (screenDimensions ?ctl) ?t = Inr s'"
    using invalidateQueue_returns by blast
  have "m_queue s' = []"
    using invalidateQueue_keeps(1) [OF r] by (simp add: updateRendered_def)
  moreover have "updateTilesGB ?ctl sampleView = Inr s'"
    using r by (simp add: updateTilesGB_def sampleView_def)
  ultimately show ?thesis
    by (simp add: sampleView_def)
qed

end
